theory Spec2Isabelle
  imports Complex_Main
begin

section \<open>Python values, exceptions and the library objects of the notebook\<close>

text \<open>
  The notebook \<^verbatim>\<open>code/chap18.ipynb\<close> is embedded function by function. Python floats
  are idealised as \<^typ>\<open>real\<close> (no rounding, no infinities, no NaN from arithmetic). Every
  exception the code can raise is a value of \<open>error\<close>; a function that can raise returns
  \<open>error + 'a\<close>, with \<open>Inl\<close> for the exception.
\<close>

datatype error =
    ValueError
  | KeyError
  | IndexError
  | AttributeError
  | ZeroDivisionError
  | NameError string
  | Raised string

text \<open>Sequencing of two computations: the first exception raised ends the evaluation.\<close>

definition and_then :: "error + 'a \<Rightarrow> ('a \<Rightarrow> error + 'b) \<Rightarrow> error + 'b" where
  "and_then r k = (case r of Inl e \<Rightarrow> Inl e | Inr v \<Rightarrow> k v)"

text \<open>
  Modelled from the spec: \<^verbatim>\<open>State\<close> (class of the modsim library, not part of the
  notebook), the StateVector: an ordered, named, fixed-arity collection of numeric fields.
  \<^verbatim>\<open>State(G=a, X=b)\<close> is \<open>[(''G'', a), (''X'', b)]\<close>; iterating over a State (as the
  tuple assignment \<^verbatim>\<open>G, X = state\<close> does) yields its values in field order.
\<close>

type_synonym State = "(string \<times> real) list"

text \<open>
  Modelled from the spec: \<^verbatim>\<open>System\<close> (class of the modsim library), the SystemConfig:
  a bundle of named values. A field is \<open>None\<close> when the bundle was built without it
  (\<^verbatim>\<open>System(...)\<close> takes any keyword arguments). The same type describes the notebook's
  module-level namespace, restricted to the names the functions below read.
\<close>

record System =
  init :: "State option"
  G0 :: "real option"
  k1 :: "real option"
  k2 :: "real option"
  k3 :: "real option"
  I :: "(real \<Rightarrow> real) option"
  Gb :: "real option"
  Ib :: "real option"
  t_0 :: "real option"
  t_end :: "real option"
  dt :: "real option"

definition no_names :: System where
  "no_names = \<lparr>init = None, G0 = None, k1 = None, k2 = None, k3 = None, I = None,
     Gb = None, Ib = None, t_0 = None, t_end = None, dt = None\<rparr>"

definition or_else :: "'a option \<Rightarrow> 'a option \<Rightarrow> 'a option" where
  "or_else a b = (case a of Some v \<Rightarrow> Some v | None \<Rightarrow> b)"

text \<open>
  Modelled from the spec: \<^verbatim>\<open>unpack\<close> (function of the modsim library), which explodes
  a configuration bundle into same-named variables of the calling function. A name the
  bundle does not carry keeps the binding it has in the enclosing namespace \<open>glob\<close>, as
  any Python name that is not local does. The result is the namespace in which the rest
  of the calling function resolves its free names.
\<close>

definition unpack :: "System \<Rightarrow> System \<Rightarrow> System" where
  "unpack system glob =
     \<lparr>init = or_else (init system) (init glob),
      G0 = or_else (G0 system) (G0 glob),
      k1 = or_else (k1 system) (k1 glob),
      k2 = or_else (k2 system) (k2 glob),
      k3 = or_else (k3 system) (k3 glob),
      I = or_else (I system) (I glob),
      Gb = or_else (Gb system) (Gb glob),
      Ib = or_else (Ib system) (Ib glob),
      t_0 = or_else (t_0 system) (t_0 glob),
      t_end = or_else (t_end system) (t_end glob),
      dt = or_else (dt system) (dt glob)\<rparr>"

text \<open>Reading a name: Python raises \<^verbatim>\<open>NameError\<close> when nothing binds it.\<close>

definition name :: "string \<Rightarrow> 'a option \<Rightarrow> error + 'a" where
  "name n v = (case v of None \<Rightarrow> Inl (NameError n) | Some x \<Rightarrow> Inr x)"

section \<open>The update rule and the slope rule\<close>

text \<open>
  \<^verbatim>\<open>update_func(state, t, system)\<close>, notebook cell 9. The tuple assignment raises
  \<^verbatim>\<open>ValueError\<close> unless the state has exactly two values. The names are read in the
  order in which Python evaluates the two right-hand sides and the two augmented
  assignments. The first argument \<open>glob\<close> is the enclosing namespace of \<open>unpack\<close>; the
  other three are the arguments of the Python function.
\<close>

definition update_func :: "System \<Rightarrow> State \<Rightarrow> real \<Rightarrow> System \<Rightarrow> error + State" where
  "update_func glob state t system =
     (case state of
        [(_, G), (_, X)] \<Rightarrow>
          (let ns = unpack system glob in
           and_then (name ''k1'' (k1 ns)) (\<lambda>k1'.
           and_then (name ''Gb'' (Gb ns)) (\<lambda>Gb'.
           let dGdt = - k1' * (G - Gb') - X * G in
           and_then (name ''k3'' (k3 ns)) (\<lambda>k3'.
           and_then (name ''I'' (I ns)) (\<lambda>I'.
           and_then (name ''Ib'' (Ib ns)) (\<lambda>Ib'.
           and_then (name ''k2'' (k2 ns)) (\<lambda>k2'.
           let dXdt = k3' * (I' t - Ib') - k2' * X in
           and_then (name ''dt'' (dt ns)) (\<lambda>dt'.
           Inr [(''G'', G + dGdt * dt'), (''X'', X + dXdt * dt')]))))))))
      | _ \<Rightarrow> Inl ValueError)"

text \<open>\<^verbatim>\<open>slope_func(state, t, system)\<close>, notebook cell 12: the same derivatives, returned.\<close>

definition slope_func :: "System \<Rightarrow> State \<Rightarrow> real \<Rightarrow> System \<Rightarrow> error + real \<times> real" where
  "slope_func glob state t system =
     (case state of
        [(_, G), (_, X)] \<Rightarrow>
          (let ns = unpack system glob in
           and_then (name ''k1'' (k1 ns)) (\<lambda>k1'.
           and_then (name ''Gb'' (Gb ns)) (\<lambda>Gb'.
           let dGdt = - k1' * (G - Gb') - X * G in
           and_then (name ''k3'' (k3 ns)) (\<lambda>k3'.
           and_then (name ''I'' (I ns)) (\<lambda>I'.
           and_then (name ''Ib'' (Ib ns)) (\<lambda>Ib'.
           and_then (name ''k2'' (k2 ns)) (\<lambda>k2'.
           let dXdt = k3' * (I' t - Ib') - k2' * X in
           Inr (dGdt, dXdt))))))))
      | _ \<Rightarrow> Inl ValueError)"

section \<open>Interpreting parameters\<close>

text \<open>
  \<^verbatim>\<open>indices(params)\<close>, notebook cell 45. The tuple assignment raises \<^verbatim>\<open>ValueError\<close>
  unless \<open>params\<close> has exactly four entries; the division is Python's, which raises
  \<^verbatim>\<open>ZeroDivisionError\<close> for a zero divisor.
\<close>

definition py_div :: "real \<Rightarrow> real \<Rightarrow> error + real" where
  "py_div a b = (if b = 0 then Inl ZeroDivisionError else Inr (a / b))"

definition indices :: "real list \<Rightarrow> error + State" where
  "indices params =
     (case params of
        [G0', k1', k2', k3'] \<Rightarrow>
          and_then (py_div k3' k2') (\<lambda>q. Inr [(''S_G'', k1'), (''S_I'', q)])
      | _ \<Rightarrow> Inl ValueError)"

section \<open>The observed data and the system built from it\<close>

text \<open>
  Modelled from the spec: the input signal table, a pandas \<^verbatim>\<open>DataFrame\<close> read with
  \<^verbatim>\<open>index_col='time'\<close>: a time-indexed table with the numeric columns glucose and
  insulin. A row is (time label, glucose, insulin); a column is a \<open>Series\<close> of (label, value).
\<close>

type_synonym Series = "(real \<times> real) list"
type_synonym DataFrame = "(real \<times> real \<times> real) list"

definition index_of :: "DataFrame \<Rightarrow> real list" where
  "index_of data = map fst data"

definition glucose :: "DataFrame \<Rightarrow> Series" where
  "glucose data = map (\<lambda>(t, g, i). (t, g)) data"

definition insulin :: "DataFrame \<Rightarrow> Series" where
  "insulin data = map (\<lambda>(t, g, i). (t, i)) data"

text \<open>
  \<^verbatim>\<open>series[0]\<close> on a column with a numeric index looks the label 0 up (it is not the
  position 0) and raises \<^verbatim>\<open>KeyError\<close> when no row carries the label; the notebook says
  so before cell 5: "we'll use the concentrations at t=0". A table without rows has no
  numeric index: there the integer is taken as a position and the lookup raises
  \<^verbatim>\<open>IndexError\<close>.
\<close>

definition series_at :: "Series \<Rightarrow> real \<Rightarrow> error + real" where
  "series_at s l =
     (case s of
        [] \<Rightarrow> Inl IndexError
      | _ # _ \<Rightarrow> (case map_of s l of None \<Rightarrow> Inl KeyError | Some v \<Rightarrow> Inr v))"

text \<open>
  Modelled from the spec: \<^verbatim>\<open>get_first_label\<close> and \<^verbatim>\<open>get_last_label\<close> (functions of the
  modsim library): the first and the last label of the time index, by position.
\<close>

definition get_first_label :: "DataFrame \<Rightarrow> error + real" where
  "get_first_label data = (case data of [] \<Rightarrow> Inl IndexError | r # _ \<Rightarrow> Inr (fst r))"

definition get_last_label :: "DataFrame \<Rightarrow> error + real" where
  "get_last_label data = (case data of [] \<Rightarrow> Inl IndexError | _ # _ \<Rightarrow> Inr (fst (last data)))"

text \<open>\<^verbatim>\<open>make_system(params, data)\<close>, notebook cell 20.\<close>

definition make_system :: "real list \<Rightarrow> DataFrame \<Rightarrow> error + System" where
  "make_system params data =
     (case params of
        [G0', k1', k2', k3'] \<Rightarrow>
          and_then (series_at (glucose data) 0) (\<lambda>Gb'.
          and_then (series_at (insulin data) 0) (\<lambda>Ib'.
          and_then (get_first_label data) (\<lambda>t_0'.
          and_then (get_last_label data) (\<lambda>t_end'.
          let init' = [(''G'', G0'), (''X'', 0)] in
          Inr \<lparr>init = Some init', G0 = Some G0', k1 = Some k1', k2 = Some k2',
               k3 = Some k3', I = None, Gb = Some Gb', Ib = Some Ib',
               t_0 = Some t_0', t_end = Some t_end', dt = None\<rparr>))))
      | _ \<Rightarrow> Inl ValueError)"

section \<open>The discrete simulator\<close>

text \<open>
  Modelled from the spec: \<^verbatim>\<open>TimeFrame\<close> (class of the modsim library), the Trajectory:
  a time-indexed, ordered sequence of StateVector rows. \<^verbatim>\<open>frame.row[t]\<close> reads the row
  labelled \<open>t\<close> (\<^verbatim>\<open>KeyError\<close> when there is none); \<^verbatim>\<open>frame.row[t] = s\<close> overwrites the
  row labelled \<open>t\<close> when there is one and appends a new last row otherwise.
\<close>

type_synonym TimeFrame = "(real \<times> State) list"

definition row_get :: "TimeFrame \<Rightarrow> real \<Rightarrow> error + State" where
  "row_get frame t = (case map_of frame t of None \<Rightarrow> Inl KeyError | Some s \<Rightarrow> Inr s)"

fun row_set :: "TimeFrame \<Rightarrow> real \<Rightarrow> State \<Rightarrow> TimeFrame" where
  "row_set [] t s = [(t, s)]"
| "row_set (r # frame) t s = (if fst r = t then (t, s) # frame else r # row_set frame t s)"

text \<open>
  A caller-supplied update rule is any Python function of (state, t, system): it returns a
  state or raises, and it may have effects of its own. The effects are a state \<open>'w\<close> that
  each call receives and returns, so that how often and in which order the simulator calls
  the rule can be read off the final \<open>'w\<close>. A rule without effects is a \<open>pure_rule\<close>.
\<close>

type_synonym 'w rule = "State \<Rightarrow> real \<Rightarrow> System \<Rightarrow> 'w \<Rightarrow> (error + State) \<times> 'w"

definition pure_rule :: "(State \<Rightarrow> real \<Rightarrow> System \<Rightarrow> error + State) \<Rightarrow> 'w rule" where
  "pure_rule g = (\<lambda>s t system w. (g s t system, w))"

text \<open>
  The loop of \<^verbatim>\<open>run_simulation\<close>, notebook cell 10:
  \<^verbatim>\<open>for t in ts: frame.row[t+dt] = update_func(frame.row[t], t, system)\<close>.
  Python evaluates the right-hand side first. There is no \<^verbatim>\<open>try\<close> in the function.
\<close>

fun run_loop :: "'w rule \<Rightarrow> System \<Rightarrow> real \<Rightarrow> TimeFrame \<Rightarrow> real list \<Rightarrow> 'w
    \<Rightarrow> (error + TimeFrame) \<times> 'w" where
  "run_loop update system dt' frame [] w = (Inr frame, w)"
| "run_loop update system dt' frame (t # ts) w =
     (case row_get frame t of
        Inl e \<Rightarrow> (Inl e, w)
      | Inr s \<Rightarrow>
          (case update s t system w of
             (Inl e, w') \<Rightarrow> (Inl e, w')
           | (Inr s', w') \<Rightarrow> run_loop update system dt' (row_set frame (t + dt') s') ts w'))"

text \<open>
  \<^verbatim>\<open>run_simulation(system, update_func)\<close>, notebook cell 10. The function
  \<^verbatim>\<open>linrange\<close> belongs to the modsim library and is not part of the notebook: it is the
  parameter \<open>lr\<close>, which returns the list of loop times or raises. \<open>glob\<close> is the
  namespace of the notebook's module, \<open>w\<close> the state of the rule's own effects. The
  empty \<^verbatim>\<open>TimeFrame(columns=init.index)\<close> is the empty list of rows.
\<close>

definition run_simulation :: "(real \<Rightarrow> real \<Rightarrow> real \<Rightarrow> error + real list) \<Rightarrow> System \<Rightarrow> System
    \<Rightarrow> 'w rule \<Rightarrow> 'w \<Rightarrow> (error + TimeFrame) \<times> 'w" where
  "run_simulation lr glob system update w =
     (let ns = unpack system glob in
      case name ''init'' (init ns) of
        Inl e \<Rightarrow> (Inl e, w)
      | Inr init' \<Rightarrow>
     (case name ''t_0'' (t_0 ns) of
        Inl e \<Rightarrow> (Inl e, w)
      | Inr t_0' \<Rightarrow>
     (let frame = row_set [] t_0' init' in
      case name ''t_end'' (t_end ns) of
        Inl e \<Rightarrow> (Inl e, w)
      | Inr t_end' \<Rightarrow>
     (case name ''dt'' (dt ns) of
        Inl e \<Rightarrow> (Inl e, w)
      | Inr dt' \<Rightarrow>
     (case lr t_0' t_end' dt' of
        Inl e \<Rightarrow> (Inl e, w)
      | Inr ts \<Rightarrow> run_loop update system dt' frame ts w)))))"

text \<open>
  Modelled from the spec: \<^verbatim>\<open>linrange\<close> (function of the modsim library), the times at
  which the discrete simulator takes a step. The spec fixes them for a positive step and
  \<open>start \<le> stop\<close>: the strictly increasing sequence \<open>start, start + step, ...\<close> such that
  the row recorded at \<open>t + step\<close> does not fall after \<open>stop\<close> ("the final recorded time may
  fall at or before t_end, never after"; t0=0, t_end=4, dt=2 gives rows at 0, 2, 4, hence
  steps at 0 and 2). The spec says nothing for a step that is not positive or for
  \<open>start > stop\<close>, and nothing below relies on the values there. \<open>grid\<close> is the
  arithmetic progression itself.
\<close>

definition grid :: "real \<Rightarrow> real \<Rightarrow> nat \<Rightarrow> nat \<Rightarrow> real list" where
  "grid start step j n = map (\<lambda>k. start + real k * step) [j..<n]"

definition linrange :: "real \<Rightarrow> real \<Rightarrow> real \<Rightarrow> error + real list" where
  "linrange start stop step = Inr (grid start step 0 (nat \<lfloor>(stop - start) / step\<rfloor>))"

section \<open>The objective function\<close>

text \<open>
  \<^verbatim>\<open>results.G\<close>: the column of a TimeFrame, by field name; \<^verbatim>\<open>AttributeError\<close> when a
  row has no such field.
\<close>

fun column :: "TimeFrame \<Rightarrow> string \<Rightarrow> error + Series" where
  "column [] n = Inr []"
| "column ((t, s) # frame) n =
     (case map_of s n of
        None \<Rightarrow> Inl AttributeError
      | Some v \<Rightarrow> and_then (column frame n) (\<lambda>rest. Inr ((t, v) # rest)))"

text \<open>
  The subtraction of two pandas Series aligns them on their labels: with equal indexes the
  result keeps the index and subtracts entry by entry; otherwise its index is the sorted
  union of the labels and an entry is NaN (here \<open>None\<close>) where either side has no value.
  Labels are taken to be unique within a Series.
\<close>

definition series_sub :: "Series \<Rightarrow> Series \<Rightarrow> (real \<times> real option) list" where
  "series_sub a b =
     (if map fst a = map fst b
      then map (\<lambda>((t, x), (u, y)). (t, Some (x - y))) (zip a b)
      else map (\<lambda>t. (t, case (map_of a t, map_of b t) of
                          (Some x, Some y) \<Rightarrow> Some (x - y)
                        | _ \<Rightarrow> None))
             (sort (remdups (map fst a @ map fst b))))"

text \<open>
  \<^verbatim>\<open>error_func(params, data)\<close>, notebook cell 22. \<^verbatim>\<open>run_ode_solver\<close> belongs to the
  modsim library and wraps an external adaptive integrator: it is a parameter, called
  with the system, the slope rule and the evaluation times \<^verbatim>\<open>t_eval=data.index\<close>, and
  returning a TimeFrame and the solver's details, or raising. The \<^verbatim>\<open>print(params)\<close> at
  the start writes to the notebook's output and returns nothing; it is left out.
\<close>

definition error_func :: "System
    \<Rightarrow> (System \<Rightarrow> (State \<Rightarrow> real \<Rightarrow> System \<Rightarrow> error + real \<times> real) \<Rightarrow> real list
        \<Rightarrow> error + TimeFrame \<times> 'd)
    \<Rightarrow> real list \<Rightarrow> DataFrame \<Rightarrow> error + (real \<times> real option) list" where
  "error_func glob run_ode_solver params data =
     and_then (make_system params data) (\<lambda>system.
     and_then (run_ode_solver system (slope_func glob) (index_of data)) (\<lambda>(results, details).
     and_then (column results ''G'') (\<lambda>results_G.
     Inr (series_sub results_G (glucose data)))))"

section \<open>The continuous simulator\<close>

text \<open>
  Modelled from the spec: the ContinuousSimulator (\<^verbatim>\<open>run_ode_solver\<close> of the modsim library
  and the external adaptive integrator it delegates to; neither is part of the notebook).
  It is given the initial state, the time span \<open>[t_0, t_end]\<close> and the slope rule, the
  named state being translated into the positional vector the integrator works on. The
  integrator is a black box; what it approximates is the exact trajectory: a function \<open>y\<close>
  of time into the positional states (G, X) that starts at the initial state and whose
  derivative at every time of the span is what the slope rule returns there.
\<close>

definition exact_trajectory :: "System \<Rightarrow> (State \<Rightarrow> real \<Rightarrow> System \<Rightarrow> error + real \<times> real)
    \<Rightarrow> System \<Rightarrow> (real \<Rightarrow> real \<times> real) \<Rightarrow> bool" where
  "exact_trajectory glob slope system y =
     (let ns = unpack system glob in
      case (init ns, t_0 ns, t_end ns) of
        (Some s0, Some a, Some b) \<Rightarrow>
          map snd s0 = [fst (y a), snd (y a)] \<and>
          (\<forall>t\<in>{a..b}. \<exists>dG dX.
             slope [(''G'', fst (y t)), (''X'', snd (y t))] t system = Inr (dG, dX) \<and>
             ((\<lambda>u. fst (y u)) has_real_derivative dG) (at t within {a..b}) \<and>
             ((\<lambda>u. snd (y u)) has_real_derivative dX) (at t within {a..b}))
      | _ \<Rightarrow> False)"

section \<open>Example inputs\<close>

text \<open>
  The system of notebook cell 8 on the short time span 0..4 with step 2; the interpolated
  insulin curve is replaced by the line \<open>11 + t\<close>.
\<close>

definition example_system :: System where
  "example_system =
     \<lparr>init = Some [(''G'', 290), (''X'', 0)], G0 = None, k1 = Some (3 / 100),
      k2 = Some (2 / 100), k3 = Some (1 / 100000), I = Some (\<lambda>t. 11 + t), Gb = Some 92,
      Ib = Some 11, t_0 = Some 0, t_end = Some 4, dt = Some 2\<rparr>"

text \<open>
  An update rule that counts its calls, leaves the state as it is and raises at time 2.
\<close>

definition failing_rule :: "nat rule" where
  "failing_rule = (\<lambda>s t system calls.
     (if t = 2 then Inl (Raised ''boom'') else Inr s, Suc calls))"

text \<open>
  Two stand-ins for \<^verbatim>\<open>run_ode_solver\<close>. The first returns one row per evaluation time,
  with G falling from 290 by one per unit of time. The second stops after the first
  evaluation time, as a solver that reports failure and returns a partial trajectory.
\<close>

definition stand_in_solver :: "System \<Rightarrow> (State \<Rightarrow> real \<Rightarrow> System \<Rightarrow> error + real \<times> real)
    \<Rightarrow> real list \<Rightarrow> error + TimeFrame \<times> string" where
  "stand_in_solver system slope t_eval =
     Inr (map (\<lambda>t. (t, [(''G'', 290 - t), (''X'', t / 100)])) t_eval, ''ok'')"

definition stopping_solver :: "System \<Rightarrow> (State \<Rightarrow> real \<Rightarrow> System \<Rightarrow> error + real \<times> real)
    \<Rightarrow> real list \<Rightarrow> error + TimeFrame \<times> string" where
  "stopping_solver system slope t_eval =
     Inr (map (\<lambda>t. (t, [(''G'', 290 - t), (''X'', t / 100)])) (take 1 t_eval), ''failed'')"

text \<open>The notebook's module namespace after cell 3, which binds \<^verbatim>\<open>I\<close>.\<close>

definition notebook_globals :: System where
  "notebook_globals = no_names\<lparr>I := Some (\<lambda>t. 11 + t)\<rparr>"

section \<open>Auxiliary facts\<close>

subsection \<open>Frames and time grids\<close>

lemma row_set_fresh: "t \<notin> fst ` set frame \<Longrightarrow> row_set frame t s = frame @ [(t, s)]"
  by (induction frame) auto

lemma map_of_last_key:
  "distinct (map fst frame) \<Longrightarrow> frame \<noteq> [] \<Longrightarrow> map_of frame (fst (last frame)) = Some (snd (last frame))"
  by (induction frame) (auto simp: rev_image_eqI)

lemma grid_Suc: "j \<le> n \<Longrightarrow> grid a d j (Suc n) = grid a d j n @ [a + real n * d]"
  by (simp add: grid_def)

lemma grid_Cons: "j < n \<Longrightarrow> grid a d j n = (a + real j * d) # grid a d (Suc j) n"
  by (simp add: grid_def upt_conv_Cons)

lemma grid_empty: "grid a d n n = []"
  by (simp add: grid_def)

lemma length_grid: "length (grid a d j n) = n - j"
  by (simp add: grid_def)

lemma nth_grid: "k < n - j \<Longrightarrow> grid a d j n ! k = a + real (j + k) * d"
  by (simp add: grid_def)

lemma distinct_grid: "d \<noteq> 0 \<Longrightarrow> distinct (grid a d j n)"
  by (simp add: grid_def distinct_map inj_on_def)

lemma grid_fresh: "d \<noteq> 0 \<Longrightarrow> a + real n * d \<notin> set (grid a d 0 n)"
  by (auto simp: grid_def)

lemma sorted_grid: "0 < d \<Longrightarrow> sorted_wrt (<) (grid a d j n)"
  by (simp add: grid_def sorted_wrt_map strict_mono_onD)

lemma run_loop_append:
  "run_loop f system d fr (xs @ ys) w =
     (case run_loop f system d fr xs w of
        (Inl e, w') \<Rightarrow> (Inl e, w')
      | (Inr fr', w') \<Rightarrow> run_loop f system d fr' ys w')"
  by (induction xs arbitrary: fr w) (auto split: sum.splits prod.splits)

lemma grid_split: "j \<le> m \<Longrightarrow> m \<le> n \<Longrightarrow> grid a d j n = grid a d j m @ grid a d m n"
  using upt_add_eq_append [of j m "n - m"] by (simp add: grid_def)

lemma update_func_value:
  assumes "unpack system glob = ns" "k1 ns = Some a1" "k2 ns = Some a2" "k3 ns = Some a3"
    "I ns = Some f" "Gb ns = Some gb" "Ib ns = Some ib" "dt ns = Some d"
  shows "update_func glob [(n1, g), (n2, x)] t system =
     Inr [(''G'', g + (- a1 * (g - gb) - x * g) * d), (''X'', x + (a3 * (f t - ib) - a2 * x) * d)]"
  using assms by (simp add: update_func_def name_def and_then_def)

lemma grid_le_stop:
  assumes "0 < d" "a \<le> b" "k \<le> nat \<lfloor>(b - a) / d\<rfloor>"
  shows "a + real k * d \<le> b"
proof -
  have nonneg: "0 \<le> (b - a) / d"
    using assms(1,2) by simp
  then have "0 \<le> \<lfloor>(b - a) / d\<rfloor>"
    by simp
  then have "real (nat \<lfloor>(b - a) / d\<rfloor>) = of_int \<lfloor>(b - a) / d\<rfloor>"
    by simp
  also have "\<dots> \<le> (b - a) / d"
    by (rule of_int_floor_le)
  finally have "real k \<le> (b - a) / d"
    using assms(3) by simp
  then have "real k * d \<le> b - a"
    using assms(1) by (simp add: pos_le_divide_eq)
  then show ?thesis by simp
qed

subsection \<open>The loop on a time grid\<close>

text \<open>
  The loop invariant: when the frame holds the rows of the times \<open>a, a + d, ..., a + j d\<close>
  and the loop runs over the times \<open>a + j d, ..., a + (n - 1) d\<close> with a rule that does not
  raise on the states it meets, every step reads the last row, appends one row, and leaves
  the rows before it as they are.
\<close>

lemma run_loop_grid:
  fixes g :: "State \<Rightarrow> real \<Rightarrow> System \<Rightarrow> error + State"
  assumes d: "d \<noteq> 0"
    and step: "\<And>s t. P s \<Longrightarrow> \<exists>s'. g s t system = Inr s' \<and> P s'"
  shows "j \<le> n \<Longrightarrow> map fst fr = grid a d 0 (Suc j) \<Longrightarrow> P (snd (last fr)) \<Longrightarrow>
     \<exists>fr'. run_loop (pure_rule g) system d fr (grid a d j n) w = (Inr fr', w) \<and>
           map fst fr' = grid a d 0 (Suc n) \<and> take (Suc j) fr' = fr \<and>
           (\<forall>k. j \<le> k \<and> k < n \<longrightarrow>
              g (snd (fr' ! k)) (a + real k * d) system = Inr (snd (fr' ! Suc k))) \<and>
           (\<forall>k. j \<le> k \<and> k \<le> n \<longrightarrow> P (snd (fr' ! k)))"
proof (induction "n - j" arbitrary: j fr)
  case 0
  then have jn: "j = n" by simp
  have len: "length fr = Suc n"
    using "0.prems"(2) jn by (metis length_map length_grid diff_zero)
  then have ne: "fr \<noteq> []" by auto
  have lst: "last fr = fr ! n"
    using len ne by (simp add: last_conv_nth)
  show ?case
    using "0.prems" jn len lst by (auto simp: grid_empty)
next
  case (Suc m)
  then have jn: "j < n" by simp
  let ?t = "a + real j * d"
  have len: "length fr = Suc j"
    using Suc.prems(2) by (metis length_map length_grid diff_zero)
  then have ne: "fr \<noteq> []" by auto
  have dist: "distinct (map fst fr)"
    using Suc.prems(2) d by (simp add: distinct_grid)
  have "fst (last fr) = last (map fst fr)"
    using ne by (simp add: last_map)
  also have "\<dots> = ?t"
    using Suc.prems(2) by (simp add: grid_Suc)
  finally have key: "fst (last fr) = ?t" .
  define s where "s = snd (last fr)"
  have get: "row_get fr ?t = Inr s"
    using map_of_last_key [OF dist ne] key by (simp add: row_get_def s_def)
  obtain s' where s': "g s ?t system = Inr s'" "P s'"
    using step Suc.prems(3) s_def by blast
  have td: "?t + d = a + real (Suc j) * d"
    by (simp add: algebra_simps)
  have fresh: "?t + d \<notin> fst ` set fr"
    using grid_fresh [OF d, of a "Suc j"] Suc.prems(2) td
    by (metis list.set_map)
  define fr2 where "fr2 = fr @ [(?t + d, s')]"
  have set2: "row_set fr (?t + d) s' = fr2"
    using fresh by (simp add: row_set_fresh fr2_def)
  have keys2: "map fst fr2 = grid a d 0 (Suc (Suc j))"
    using Suc.prems(2) td by (simp add: fr2_def grid_Suc [of 0 "Suc j"])
  have P2: "P (snd (last fr2))"
    using s'(2) by (simp add: fr2_def)
  have m: "m = n - Suc j" using Suc.hyps(2) by simp
  have le: "Suc j \<le> n" using jn by simp
  obtain fr' where fr':
    "run_loop (pure_rule g) system d fr2 (grid a d (Suc j) n) w = (Inr fr', w)"
    "map fst fr' = grid a d 0 (Suc n)"
    "take (Suc (Suc j)) fr' = fr2"
    "\<forall>k. Suc j \<le> k \<and> k < n \<longrightarrow>
        g (snd (fr' ! k)) (a + real k * d) system = Inr (snd (fr' ! Suc k))"
    "\<forall>k. Suc j \<le> k \<and> k \<le> n \<longrightarrow> P (snd (fr' ! k))"
    using Suc.hyps(1) [OF m le keys2 P2] by blast
  have run: "run_loop (pure_rule g) system d fr (grid a d j n) w = (Inr fr', w)"
    using get s'(1) set2 fr'(1) by (simp add: grid_Cons [OF jn] pure_rule_def)
  have "take (Suc j) fr' = take (Suc j) (take (Suc (Suc j)) fr')"
    by (simp add: min_def)
  also have "\<dots> = fr"
    using len by (simp add: fr'(3) fr2_def)
  finally have tk: "take (Suc j) fr' = fr" .
  have nj: "fr' ! j = last fr"
  proof -
    have "fr' ! j = take (Suc j) fr' ! j" by simp
    also have "\<dots> = last fr" using tk len ne by (simp add: last_conv_nth)
    finally show ?thesis .
  qed
  have nSj: "fr' ! Suc j = (?t + d, s')"
  proof -
    have "fr' ! Suc j = take (Suc (Suc j)) fr' ! Suc j" by simp
    also have "\<dots> = (?t + d, s')" using len by (simp add: fr'(3) fr2_def nth_append)
    finally show ?thesis .
  qed
  have stepj: "g (snd (fr' ! j)) (a + real j * d) system = Inr (snd (fr' ! Suc j))"
    using s'(1) nj nSj s_def by simp
  have Pj: "P (snd (fr' ! j))"
    using nj Suc.prems(3) by simp
  have steps: "\<forall>k. j \<le> k \<and> k < n \<longrightarrow>
      g (snd (fr' ! k)) (a + real k * d) system = Inr (snd (fr' ! Suc k))"
    using stepj fr'(4) by (metis Suc_leI le_neq_implies_less)
  have Ps: "\<forall>k. j \<le> k \<and> k \<le> n \<longrightarrow> P (snd (fr' ! k))"
    using Pj fr'(5) by (metis Suc_leI le_neq_implies_less)
  show ?case
    using run fr'(2) tk steps Ps by blast
qed

lemma update_func_total:
  assumes "unpack system glob = ns" "k1 ns = Some a1" "k2 ns = Some a2" "k3 ns = Some a3"
    "I ns = Some f" "Gb ns = Some gb" "Ib ns = Some ib" "dt ns = Some d"
    and "length s = 2"
  shows "\<exists>s'. update_func glob s t system = Inr s' \<and> map fst s' = [''G'', ''X'']"
proof -
  obtain p q where "s = [p, q]"
    using assms(9) by (auto simp: length_Suc_conv numeral_2_eq_2)
  then obtain n1 g n2 x where s: "s = [(n1, g), (n2, x)]"
    by (cases p, cases q) simp
  show ?thesis
    unfolding s update_func_value [OF assms(1-8)] by simp
qed

lemma run_simulation_grid:
  fixes g :: "State \<Rightarrow> real \<Rightarrow> System \<Rightarrow> error + State"
  assumes ns: "unpack system glob = ns" "init ns = Some s0" "t_0 ns = Some a"
      "t_end ns = Some b" "dt ns = Some d"
    and lr: "lr a b d = Inr (grid a d 0 n)"
    and d: "d \<noteq> 0"
    and P0: "P s0"
    and step: "\<And>s t. P s \<Longrightarrow> \<exists>s'. g s t system = Inr s' \<and> P s'"
  shows "\<exists>frame. run_simulation lr glob system (pure_rule g) w = (Inr frame, w) \<and>
     map fst frame = grid a d 0 (Suc n) \<and> frame ! 0 = (a, s0) \<and>
     (\<forall>k<n. g (snd (frame ! k)) (a + real k * d) system = Inr (snd (frame ! Suc k))) \<and>
     (\<forall>k\<le>n. P (snd (frame ! k))) \<and>
     (\<forall>m\<le>n. run_loop (pure_rule g) system d [(a, s0)] (grid a d 0 m) w =
        (Inr (take (Suc m) frame), w))"
proof -
  have k0: "map fst [(a, s0)] = grid a d 0 (Suc 0)"
    by (simp add: grid_def)
  have P0': "P (snd (last [(a, s0)]))"
    using P0 by simp
  obtain frame where fr:
    "run_loop (pure_rule g) system d [(a, s0)] (grid a d 0 n) w = (Inr frame, w)"
    "map fst frame = grid a d 0 (Suc n)"
    "take (Suc 0) frame = [(a, s0)]"
    "\<forall>k. 0 \<le> k \<and> k < n \<longrightarrow>
        g (snd (frame ! k)) (a + real k * d) system = Inr (snd (frame ! Suc k))"
    "\<forall>k. 0 \<le> k \<and> k \<le> n \<longrightarrow> P (snd (frame ! k))"
    using run_loop_grid [where P = P and g = g and system = system and j = 0 and n = n
        and w = w, OF d step le0 k0 P0'] by auto
  have run: "run_simulation lr glob system (pure_rule g) w = (Inr frame, w)"
    using ns lr fr(1) by (simp add: run_simulation_def name_def)
  have "frame ! 0 = take (Suc 0) frame ! 0" by simp
  then have first: "frame ! 0 = (a, s0)" by (simp add: fr(3))
  have pre: "run_loop (pure_rule g) system d [(a, s0)] (grid a d 0 m) w =
      (Inr (take (Suc m) frame), w)" if m: "m \<le> n" for m
  proof -
    obtain fm where fm:
      "run_loop (pure_rule g) system d [(a, s0)] (grid a d 0 m) w = (Inr fm, w)"
      "map fst fm = grid a d 0 (Suc m)"
      "\<forall>k. 0 \<le> k \<and> k \<le> m \<longrightarrow> P (snd (fm ! k))"
      using run_loop_grid [where P = P and g = g and system = system and j = 0 and n = m
          and w = w, OF d step le0 k0 P0'] by auto
    have "length fm = Suc m"
      using fm(2) by (metis length_map length_grid diff_zero)
    then have "last fm = fm ! m"
      by (metis diff_Suc_1 last_conv_nth list.size(3) nat.simps(3))
    then have Pm: "P (snd (last fm))"
      using fm(3) by simp
    obtain fr' where fr':
      "run_loop (pure_rule g) system d fm (grid a d m n) w = (Inr fr', w)"
      "take (Suc m) fr' = fm"
      using run_loop_grid [where P = P and g = g and system = system and w = w,
          OF d step m fm(2) Pm] by auto
    have "run_loop (pure_rule g) system d [(a, s0)] (grid a d 0 n) w = (Inr fr', w)"
      using grid_split [of 0 m n a d] m fm(1) fr'(1) by (simp add: run_loop_append)
    then have "fr' = frame"
      using fr(1) by simp
    then show ?thesis
      using fm(1) fr'(2) by simp
  qed
  show ?thesis
    using run fr(2) first fr(4) fr(5) pre by auto
qed

lemma unpack_carried:
  "init system = Some s0 \<Longrightarrow> init (unpack system glob) = Some s0"
  "t_0 system = Some a \<Longrightarrow> t_0 (unpack system glob) = Some a"
  "t_end system = Some b \<Longrightarrow> t_end (unpack system glob) = Some b"
  "dt system = Some d \<Longrightarrow> dt (unpack system glob) = Some d"
  "k1 system = Some a1 \<Longrightarrow> k1 (unpack system glob) = Some a1"
  "k2 system = Some a2 \<Longrightarrow> k2 (unpack system glob) = Some a2"
  "k3 system = Some a3 \<Longrightarrow> k3 (unpack system glob) = Some a3"
  "I system = Some f \<Longrightarrow> I (unpack system glob) = Some f"
  "Gb system = Some gb \<Longrightarrow> Gb (unpack system glob) = Some gb"
  "Ib system = Some ib \<Longrightarrow> Ib (unpack system glob) = Some ib"
  by (simp_all add: unpack_def or_else_def)

lemma example_update_total:
  assumes "length s = 2"
  shows "\<exists>s'. update_func no_names s t example_system = Inr s' \<and> length s' = 2"
proof -
  have "\<exists>s'. update_func no_names s t example_system = Inr s' \<and> map fst s' = [''G'', ''X'']"
    by (rule update_func_total [where ns = "unpack example_system no_names"
          and ?a1.0 = "3 / 100" and ?a2.0 = "2 / 100" and ?a3.0 = "1 / 100000"
          and f = "\<lambda>t. 11 + t" and gb = 92 and ib = 11 and d = 2])
      (simp_all add: assms example_system_def unpack_def or_else_def)
  then obtain s' where "update_func no_names s t example_system = Inr s'"
      "map fst s' = [''G'', ''X'']"
    by auto
  moreover from this have "length (map fst s') = 2"
    by simp
  ultimately show ?thesis by auto
qed

subsection \<open>What make_system returns and raises\<close>

lemma series_at_columns:
  "map_of (glucose data) l = Some v \<Longrightarrow> data \<noteq> []"
  by (auto simp: glucose_def)

lemma make_system_value:
  assumes "map_of (glucose data) 0 = Some gb" "map_of (insulin data) 0 = Some ib"
  shows "make_system [g0, a1, a2, a3] data =
     Inr \<lparr>init = Some [(''G'', g0), (''X'', 0)], G0 = Some g0, k1 = Some a1, k2 = Some a2,
          k3 = Some a3, I = None, Gb = Some gb, Ib = Some ib, t_0 = Some (fst (hd data)),
          t_end = Some (fst (last data)), dt = None\<rparr>"
proof -
  have "data \<noteq> []"
    using assms(1) by (rule series_at_columns)
  then obtain r rest where "data = r # rest"
    by (cases data) auto
  then show ?thesis
    using assms
    by (simp add: make_system_def series_at_def and_then_def get_first_label_def
        get_last_label_def glucose_def insulin_def)
qed

lemma map_of_glucose_None: "map_of (glucose data) l = None \<longleftrightarrow> l \<notin> fst ` set data"
  by (induction data) (auto simp: glucose_def)

lemma map_of_insulin_None: "map_of (insulin data) l = None \<longleftrightarrow> l \<notin> fst ` set data"
  by (induction data) (auto simp: insulin_def)

lemma make_system_KeyError:
  assumes "data \<noteq> []" "0 \<notin> fst ` set data"
  shows "make_system [g0, a1, a2, a3] data = Inl KeyError"
proof -
  obtain r rest where "data = r # rest"
    using assms(1) by (cases data) auto
  then show ?thesis
    using assms(2) map_of_glucose_None [of data 0]
    by (simp add: make_system_def series_at_def and_then_def glucose_def)
qed

lemma make_system_IndexError: "make_system [g0, a1, a2, a3] [] = Inl IndexError"
  by (simp add: make_system_def series_at_def and_then_def glucose_def)

lemma make_system_ValueError:
  assumes "length params \<noteq> 4"
  shows "make_system params data = Inl ValueError"
proof -
  have "\<not> (\<exists>a b c d. params = [a, b, c, d])"
    using assms by auto
  then show ?thesis
    by (auto simp: make_system_def split: list.splits)
qed

lemma map_of_glucose_insulin:
  assumes "0 \<in> fst ` set data"
  shows "\<exists>gb ib. map_of (glucose data) 0 = Some gb \<and> map_of (insulin data) 0 = Some ib"
  using assms map_of_glucose_None [of data 0] map_of_insulin_None [of data 0] by auto

subsection \<open>Columns and aligned subtraction\<close>

lemma column_index: "column frame n = Inr c \<Longrightarrow> map fst c = map fst frame"
  by (induction frame arbitrary: c)
    (auto simp: and_then_def split: option.splits sum.splits)

lemma index_glucose: "map fst (glucose data) = index_of data"
  by (simp add: glucose_def index_of_def case_prod_unfold comp_def)

lemma series_sub_same_index:
  assumes "map fst a = map fst b"
  shows "map fst (series_sub a b) = map fst a"
    and "length (series_sub a b) = length a"
    and "i < length a \<Longrightarrow> series_sub a b ! i = (fst (a ! i), Some (snd (a ! i) - snd (b ! i)))"
proof -
  have len: "length a = length b"
    using assms by (metis length_map)
  have sub: "series_sub a b = map (\<lambda>((t, x), (u, y)). (t, Some (x - y))) (zip a b)"
    using assms by (simp add: series_sub_def)
  show "map fst (series_sub a b) = map fst a"
    unfolding sub using len
    by (induction a b rule: list_induct2) auto
  show "length (series_sub a b) = length a"
    unfolding sub using len by simp
  show "series_sub a b ! i = (fst (a ! i), Some (snd (a ! i) - snd (b ! i)))" if "i < length a"
    unfolding sub using len that by (simp add: case_prod_unfold)
qed

lemma column_nth:
  "column frame n = Inr c \<Longrightarrow> i < length frame \<Longrightarrow>
     map_of (snd (frame ! i)) n = Some (snd (c ! i))"
proof (induction frame arbitrary: c i)
  case Nil
  then show ?case by simp
next
  case (Cons r frame)
  obtain t s where r: "r = (t, s)"
    by (cases r)
  from Cons.prems(1) obtain v rest where v: "map_of s n = Some v"
    and rest: "column frame n = Inr rest" and c: "c = (t, v) # rest"
    by (auto simp: r and_then_def split: option.splits sum.splits)
  show ?case
  proof (cases i)
    case 0
    then show ?thesis by (simp add: r v c)
  next
    case (Suc j)
    then show ?thesis
      using Cons.IH [OF rest, of j] Cons.prems(2) by (simp add: c)
  qed
qed

lemma sort_union_subset:
  fixes kb :: "real list"
  assumes "sorted_wrt (<) kb" "set ka \<subseteq> set kb"
  shows "sort (remdups (ka @ kb)) = kb"
proof (rule sorted_distinct_set_unique)
  show "sorted (sort (remdups (ka @ kb)))" by simp
  show "distinct (sort (remdups (ka @ kb)))" by simp
  show "sorted kb" "distinct kb"
    using assms(1) by (simp_all add: strict_sorted_iff)
  show "set (sort (remdups (ka @ kb))) = set kb"
    using assms(2) by auto
qed

lemma series_sub_index:
  assumes "sorted_wrt (<) (map fst b)" "set (map fst a) \<subseteq> set (map fst b)"
  shows "map fst (series_sub a b) = map fst b"
    and "length (series_sub a b) = length b"
    and "i < length b \<Longrightarrow> map_of a (fst (b ! i)) = None \<Longrightarrow>
      series_sub a b ! i = (fst (b ! i), None)"
proof -
  have srt: "sort (remdups (map fst a @ map fst b)) = map fst b"
    by (rule sort_union_subset [OF assms])
  show idx: "map fst (series_sub a b) = map fst b"
  proof (cases "map fst a = map fst b")
    case True
    then show ?thesis
      using series_sub_same_index(1) [OF True] by simp
  next
    case False
    then show ?thesis
      by (simp add: series_sub_def srt comp_def)
  qed
  then show "length (series_sub a b) = length b"
    by (metis length_map)
  show "series_sub a b ! i = (fst (b ! i), None)"
    if i: "i < length b" and none: "map_of a (fst (b ! i)) = None"
  proof -
    have "fst (b ! i) \<in> set (map fst b)"
      using i by simp
    moreover have "fst (b ! i) \<notin> set (map fst a)"
      using none by (simp add: map_of_eq_None_iff)
    ultimately have ne: "map fst a \<noteq> map fst b"
      by metis
    show ?thesis
      using i none by (simp add: series_sub_def ne srt)
  qed
qed

lemma column_map_of:
  "column frame n = Inr c \<Longrightarrow> map_of frame t = Some s \<Longrightarrow>
     \<exists>v. map_of s n = Some v \<and> map_of c t = Some v"
proof (induction frame arbitrary: c)
  case Nil
  then show ?case by simp
next
  case (Cons r frame)
  obtain u s' where r: "r = (u, s')"
    by (cases r)
  from Cons.prems(1) obtain v rest where v: "map_of s' n = Some v"
    and rest: "column frame n = Inr rest" and c: "c = (u, v) # rest"
    by (auto simp: r and_then_def split: option.splits sum.splits)
  show ?case
  proof (cases "u = t")
    case True
    then show ?thesis
      using Cons.prems(2) v by (simp add: r c)
  next
    case False
    then show ?thesis
      using Cons.IH [OF rest] Cons.prems(2) by (simp add: r c)
  qed
qed

lemma map_of_nth_distinct:
  "distinct (map fst b) \<Longrightarrow> i < length b \<Longrightarrow> map_of b (fst (b ! i)) = Some (snd (b ! i))"
  by simp

lemma series_sub_present:
  assumes "sorted_wrt (<) (map fst b)" "set (map fst a) \<subseteq> set (map fst b)"
    and "i < length b" "map_of a (fst (b ! i)) = Some x"
  shows "series_sub a b ! i = (fst (b ! i), Some (x - snd (b ! i)))"
proof -
  have db: "distinct (map fst b)"
    using assms(1) by (simp add: strict_sorted_iff)
  have gb: "map_of b (fst (b ! i)) = Some (snd (b ! i))"
    by (rule map_of_nth_distinct [OF db assms(3)])
  show ?thesis
  proof (cases "map fst a = map fst b")
    case True
    have la: "length a = length b"
      using True by (metis length_map)
    have da: "distinct (map fst a)"
      using db True by simp
    have "fst (a ! i) = fst (b ! i)"
      using True assms(3) la by (metis nth_map)
    then have "map_of a (fst (b ! i)) = Some (snd (a ! i))"
      using map_of_nth_distinct [OF da, of i] assms(3) la by simp
    then have "snd (a ! i) = x"
      using assms(4) by simp
    then show ?thesis
      using series_sub_same_index(3) [OF True, of i] assms(3) la \<open>fst (a ! i) = fst (b ! i)\<close>
      by simp
  next
    case False
    have srt: "sort (remdups (map fst a @ map fst b)) = map fst b"
      by (rule sort_union_subset [OF assms(1,2)])
    show ?thesis
      using assms(3,4) gb by (simp add: series_sub_def False srt)
  qed
qed

subsection \<open>The slope rule with zero rate constants\<close>

lemma constant_on_interval:
  fixes h :: "real \<Rightarrow> real"
  assumes der: "\<And>t. t \<in> {a..b} \<Longrightarrow> (h has_real_derivative 0) (at t within {a..b})"
    and t: "t \<in> {a..b}"
  shows "h t = h a"
proof (cases "a < b")
  case True
  have cont: "continuous_on {a..b} h"
    by (rule DERIV_continuous_on [where D = "\<lambda>x. 0"]) (rule der)
  have inner: "DERIV h x :> 0" if "a < x" "x < b" for x
    using der [of x] that by (simp add: at_within_Icc_at)
  show ?thesis
    using DERIV_isconst2 [OF True cont inner, of t] t by simp
next
  case False
  then have "t = a"
    using t by auto
  then show ?thesis
    by simp
qed

lemma slope_func_zero_rates:
  assumes "k1 (unpack system glob) = Some 0" "k2 (unpack system glob) = Some 0"
    "k3 (unpack system glob) = Some 0" "I (unpack system glob) = Some f"
    "Gb (unpack system glob) = Some gb" "Ib (unpack system glob) = Some ib"
  shows "slope_func glob [(n1, g), (n2, x)] t system = Inr (- (x * g), 0)"
  using assms by (simp add: slope_func_def name_def and_then_def)

section \<open>The claims\<close>

text \<open>
  C1. For a state (G, X), a time t and a system carrying k1, k2, k3, Gb, Ib, dt and the
  insulin signal I, \<open>update_func\<close> returns the state with
  \<open>G' = G + (- k1 * (G - Gb) - X * G) * dt\<close> and
  \<open>X' = X + (k3 * (I t - Ib) - k2 * X) * dt\<close>. The harness \<open>run_simulation\<close> does no
  integration of its own: over the loop times \<open>t_0, t_0 + dt, ...\<close> (n of them), with any
  rule that does not raise on the states it meets, it returns n + 1 rows, the first being
  the initial state at \<open>t_0\<close>, and each further row is labelled with the previous label
  plus dt and holds exactly what the rule returned for the previous row and its label.
\<close>

theorem update_func_euler_step:
  fixes g :: "State \<Rightarrow> real \<Rightarrow> System \<Rightarrow> error + State"
  assumes cfg: "k1 system = Some a1" "k2 system = Some a2" "k3 system = Some a3"
      "I system = Some f" "Gb system = Some gb" "Ib system = Some ib" "dt system = Some d"
  shows "update_func glob [(n1, G'), (n2, X')] t system =
       Inr [(''G'', G' + (- a1 * (G' - gb) - X' * G') * d),
            (''X'', X' + (a3 * (f t - ib) - a2 * X') * d)] \<and>
     (init system = Some s0 \<and> t_0 system = Some a \<and> t_end system = Some b \<and>
      lr a b d = Inr (map (\<lambda>k. a + real k * d) [0..<n]) \<and> d \<noteq> 0 \<and>
      P s0 \<and> (\<forall>s t. P s \<longrightarrow> (\<exists>s'. g s t system = Inr s' \<and> P s')) \<longrightarrow>
      (\<exists>frame. run_simulation lr glob system (pure_rule g) w = (Inr frame, w) \<and>
         length frame = Suc n \<and> frame ! 0 = (a, s0) \<and>
         (\<forall>k<n. fst (frame ! Suc k) = fst (frame ! k) + d \<and>
            g (snd (frame ! k)) (fst (frame ! k)) system = Inr (snd (frame ! Suc k)))))"
proof (intro conjI impI)
  show "update_func glob [(n1, G'), (n2, X')] t system =
       Inr [(''G'', G' + (- a1 * (G' - gb) - X' * G') * d),
            (''X'', X' + (a3 * (f t - ib) - a2 * X') * d)]"
    using cfg by (simp add: update_func_value [where ns = "unpack system glob"] unpack_carried)
next
  assume run: "init system = Some s0 \<and> t_0 system = Some a \<and> t_end system = Some b \<and>
      lr a b d = Inr (map (\<lambda>k. a + real k * d) [0..<n]) \<and> d \<noteq> 0 \<and>
      P s0 \<and> (\<forall>s t. P s \<longrightarrow> (\<exists>s'. g s t system = Inr s' \<and> P s'))"
  then have span: "init system = Some s0" "t_0 system = Some a" "t_end system = Some b"
    and d: "d \<noteq> 0" and P0: "P s0"
    by simp_all
  have step: "\<exists>s'. g s t system = Inr s' \<and> P s'" if "P s" for s t
    using run that by blast
  have lr': "lr a b d = Inr (grid a d 0 n)"
    using run by (simp add: grid_def)
  obtain frame where fr:
    "run_simulation lr glob system (pure_rule g) w = (Inr frame, w)"
    "map fst frame = grid a d 0 (Suc n)"
    "frame ! 0 = (a, s0)"
    "\<forall>k<n. g (snd (frame ! k)) (a + real k * d) system = Inr (snd (frame ! Suc k))"
    using run_simulation_grid [where P = P and g = g and system = system and glob = glob
        and lr = lr and w = w, OF refl unpack_carried(1) unpack_carried(2) unpack_carried(3)
        unpack_carried(4) lr' d P0 step, OF span cfg(7)]
    by blast
  have len: "length frame = Suc n"
    using fr(2) by (metis length_map length_grid diff_zero)
  have key: "fst (frame ! k) = a + real k * d" if "k \<le> n" for k
  proof -
    have "fst (frame ! k) = map fst frame ! k"
      using that len by simp
    then show ?thesis
      using that by (simp add: fr(2) nth_grid)
  qed
  have "fst (frame ! Suc k) = fst (frame ! k) + d \<and>
      g (snd (frame ! k)) (fst (frame ! k)) system = Inr (snd (frame ! Suc k))"
    if "k < n" for k
    using that fr(4) key [of k] key [of "Suc k"] by (simp add: algebra_simps)
  then show "\<exists>frame. run_simulation lr glob system (pure_rule g) w = (Inr frame, w) \<and>
        length frame = Suc n \<and> frame ! 0 = (a, s0) \<and>
        (\<forall>k<n. fst (frame ! Suc k) = fst (frame ! k) + d \<and>
           g (snd (frame ! k)) (fst (frame ! k)) system = Inr (snd (frame ! Suc k)))"
    using fr(1) len fr(3) by blast
qed

theorem update_func_euler_step_witness:
  "update_func no_names [(''G'', 290), (''X'', 0)] 0 example_system =
     Inr [(''G'', 290 + (- (3 / 100) * (290 - 92) - 0 * 290) * 2),
          (''X'', 0 + (1 / 100000 * (11 + 0 - 11) - 2 / 100 * 0) * 2)] \<and>
   (\<exists>frame. run_simulation linrange no_names example_system
        (pure_rule (update_func no_names)) () = (Inr frame, ()) \<and>
      length frame = 3 \<and> frame ! 0 = (0, [(''G'', 290), (''X'', 0)]) \<and>
      (\<forall>k<2. fst (frame ! Suc k) = fst (frame ! k) + 2 \<and>
         update_func no_names (snd (frame ! k)) (fst (frame ! k)) example_system =
           Inr (snd (frame ! Suc k))))"
proof -
  have lr: "linrange 0 4 2 = Inr (map (\<lambda>k. 0 + real k * 2) [0..<2])"
    by (simp add: linrange_def grid_def)
  have step: "\<forall>s t. length s = 2 \<longrightarrow>
      (\<exists>s'. update_func no_names s t example_system = Inr s' \<and> length s' = 2)"
    using example_update_total by blast
  have inst: "update_func no_names [(''G'', 290), (''X'', 0)] 0 example_system =
       Inr [(''G'', 290 + (- (3 / 100) * (290 - 92) - 0 * 290) * 2),
            (''X'', 0 + (1 / 100000 * (11 + 0 - 11) - 2 / 100 * 0) * 2)] \<and>
     (init example_system = Some [(''G'', 290), (''X'', 0)] \<and> t_0 example_system = Some 0 \<and>
      t_end example_system = Some 4 \<and>
      linrange 0 4 2 = Inr (map (\<lambda>k. 0 + real k * 2) [0..<2]) \<and> (2 :: real) \<noteq> 0 \<and>
      length [(''G'', 290 :: real), (''X'', 0)] = 2 \<and>
      (\<forall>s t. length s = 2 \<longrightarrow>
         (\<exists>s'. update_func no_names s t example_system = Inr s' \<and> length s' = 2)) \<longrightarrow>
      (\<exists>frame. run_simulation linrange no_names example_system
           (pure_rule (update_func no_names)) () = (Inr frame, ()) \<and>
         length frame = Suc 2 \<and> frame ! 0 = (0, [(''G'', 290), (''X'', 0)]) \<and>
         (\<forall>k<2. fst (frame ! Suc k) = fst (frame ! k) + 2 \<and>
            update_func no_names (snd (frame ! k)) (fst (frame ! k)) example_system =
              Inr (snd (frame ! Suc k)))))"
    by (rule update_func_euler_step [where system = example_system and glob = no_names
          and lr = linrange and g = "update_func no_names" and P = "\<lambda>s. length s = 2"
          and a = 0 and b = 4 and d = 2 and n = 2 and w = "()"
          and ?n1.0 = "''G''" and ?n2.0 = "''X''" and G' = 290 and X' = 0 and t = 0
          and ?a1.0 = "3 / 100" and ?a2.0 = "2 / 100" and ?a3.0 = "1 / 100000"
          and f = "\<lambda>t. 11 + t" and gb = 92 and ib = 11
          and ?s0.0 = "[(''G'', 290), (''X'', 0)]"])
      (simp_all add: example_system_def)
  have pre: "init example_system = Some [(''G'', 290), (''X'', 0)] \<and> t_0 example_system = Some 0 \<and>
      t_end example_system = Some 4"
    by (simp add: example_system_def)
  show ?thesis
    using inst pre lr step by simp
qed

text \<open>
  C2. For a system with a positive step and \<open>t_0 \<le> t_end\<close>, and a rule that does not
  raise on the states it meets, the frame of \<open>run_simulation\<close> (with the loop times of
  \<open>linrange\<close>) starts with the initial state at \<open>t_0\<close>; its labels are
  \<open>t_0, t_0 + dt, t_0 + 2 dt, ...\<close>, strictly increasing, and the last one does not
  exceed \<open>t_end\<close>. For \<open>t_0 = 0\<close>, \<open>t_end = 4\<close>, \<open>dt = 2\<close> the labels are 0, 2, 4.
\<close>

theorem run_simulation_recorded_times:
  fixes g :: "State \<Rightarrow> real \<Rightarrow> System \<Rightarrow> error + State"
  assumes span: "init system = Some s0" "t_0 system = Some a" "t_end system = Some b"
      "dt system = Some d"
    and d: "0 < d"
    and ab: "a \<le> b"
    and P0: "P s0"
    and step: "\<And>s t. P s \<Longrightarrow> \<exists>s'. g s t system = Inr s' \<and> P s'"
  shows "\<exists>frame. run_simulation linrange glob system (pure_rule g) w = (Inr frame, w) \<and>
     frame ! 0 = (a, s0) \<and>
     map fst frame = map (\<lambda>k. a + real k * d) [0..<Suc (nat \<lfloor>(b - a) / d\<rfloor>)] \<and>
     sorted_wrt (<) (map fst frame) \<and>
     last (map fst frame) \<le> b \<and>
     (a = 0 \<and> b = 4 \<and> d = 2 \<longrightarrow> map fst frame = [0, 2, 4])"
proof -
  define n where "n = nat \<lfloor>(b - a) / d\<rfloor>"
  have lr: "linrange a b d = Inr (grid a d 0 n)"
    by (simp add: linrange_def n_def)
  have d0: "d \<noteq> 0"
    using d by simp
  obtain frame where fr:
    "run_simulation linrange glob system (pure_rule g) w = (Inr frame, w)"
    "map fst frame = grid a d 0 (Suc n)"
    "frame ! 0 = (a, s0)"
    using run_simulation_grid [where P = P and g = g and system = system and glob = glob
        and lr = linrange and w = w, OF refl unpack_carried(1) unpack_carried(2)
        unpack_carried(3) unpack_carried(4) lr d0 P0 step, OF span]
    by blast
  have keys: "map fst frame = map (\<lambda>k. a + real k * d) [0..<Suc n]"
    using fr(2) by (simp add: grid_def)
  have sorted: "sorted_wrt (<) (map fst frame)"
    unfolding fr(2) by (rule sorted_grid [OF d])
  have "last (map fst frame) = a + real n * d"
    by (simp add: fr(2) grid_Suc)
  then have last: "last (map fst frame) \<le> b"
    using grid_le_stop [OF d ab, of n] by (simp add: n_def)
  have ex: "map fst frame = [0, 2, 4]" if "a = 0 \<and> b = 4 \<and> d = 2"
    using that keys by (simp add: n_def upt_conv_Cons)
  show ?thesis
    apply (rule exI [of _ frame])
    apply (intro conjI)
    apply (rule fr(1))
    apply (rule fr(3))
    apply (simp add: keys n_def)
    apply (rule sorted)
    apply (rule last)
    apply (simp add: ex)
    done
qed

theorem run_simulation_recorded_times_witness:
  "(\<exists>frame. run_simulation linrange no_names example_system
        (pure_rule (update_func no_names)) () = (Inr frame, ()) \<and>
      frame ! 0 = (0, [(''G'', 290), (''X'', 0)]) \<and>
      map fst frame = [0, 2, 4] \<and> sorted_wrt (<) (map fst frame) \<and>
      last (map fst frame) \<le> 4) \<and>
   (\<exists>frame. run_simulation linrange no_names (example_system\<lparr>t_end := Some 5\<rparr>)
        (pure_rule (\<lambda>s t system. Inr s)) () = (Inr frame, ()) \<and>
      map fst frame = [0, 2, 4] \<and> last (map fst frame) \<le> 5)"
proof
  have P0: "length [(''G'', 290::real), (''X'', 0)] = 2"
    by simp
  show "\<exists>frame. run_simulation linrange no_names example_system
        (pure_rule (update_func no_names)) () = (Inr frame, ()) \<and>
      frame ! 0 = (0, [(''G'', 290), (''X'', 0)]) \<and>
      map fst frame = [0, 2, 4] \<and> sorted_wrt (<) (map fst frame) \<and>
      last (map fst frame) \<le> 4"
    using run_simulation_recorded_times [where system = example_system and glob = no_names
        and g = "update_func no_names" and P = "\<lambda>s. length s = 2"
        and a = 0 and b = 4 and d = 2 and w = "()"
        and ?s0.0 = "[(''G'', 290), (''X'', 0)]", OF _ _ _ _ _ _ P0 example_update_total]
    by (auto simp: example_system_def upt_conv_Cons)
next
  show "\<exists>frame. run_simulation linrange no_names (example_system\<lparr>t_end := Some 5\<rparr>)
        (pure_rule (\<lambda>s t system. Inr s)) () = (Inr frame, ()) \<and>
      map fst frame = [0, 2, 4] \<and> last (map fst frame) \<le> 5"
    using run_simulation_recorded_times [where system = "example_system\<lparr>t_end := Some 5\<rparr>"
        and glob = no_names and g = "\<lambda>s t system. Inr s" and P = "\<lambda>s. True"
        and a = 0 and b = 5 and d = 2 and w = "()"
        and ?s0.0 = "[(''G'', 290), (''X'', 0)]"]
    by (auto simp: example_system_def upt_conv_Cons)
qed

text \<open>
  C3. When \<open>make_system\<close> builds a system from the parameters and the data, and
  \<^verbatim>\<open>run_ode_solver\<close>, called with the evaluation times \<^verbatim>\<open>t_eval=data.index\<close>, returns a
  frame with a column G, \<open>error_func\<close> returns the residuals
  \<^verbatim>\<open>results.G - data.glucose\<close>. When the frame has one row per requested time, their index
  is the data's time index, their number is the number of observed points, and entry \<open>i\<close>
  carries the data's label \<open>i\<close> and the value of the field G in the simulated row of
  that same label minus the observed glucose at that label. When the time index is
  strictly increasing and the frame holds rows for some of the requested times only, the
  index and the number are still those of the data; an entry with a simulated row of its
  label is that row's G minus the observed glucose, and an entry without one is NaN.
\<close>

theorem error_func_residuals:
  assumes sys: "make_system params data = Inr system"
    and run: "run_ode_solver system (slope_func glob) (index_of data) = Inr (results, details)"
    and col: "column results ''G'' = Inr results_G"
  shows "\<exists>errors. error_func glob run_ode_solver params data = Inr errors \<and>
     (map fst results = index_of data \<longrightarrow>
        map fst errors = index_of data \<and>
        length errors = length data \<and>
        (\<forall>i<length data.
           fst (results ! i) = fst (data ! i) \<and>
           map_of (snd (results ! i)) ''G'' = Some (snd (results_G ! i)) \<and>
           errors ! i = (fst (data ! i), Some (snd (results_G ! i) - fst (snd (data ! i)))))) \<and>
     (sorted_wrt (<) (index_of data) \<and> set (map fst results) \<subseteq> set (index_of data) \<longrightarrow>
        map fst errors = index_of data \<and>
        length errors = length data \<and>
        (\<forall>i<length data.
           (fst (data ! i) \<notin> set (map fst results) \<longrightarrow>
              errors ! i = (fst (data ! i), None)) \<and>
           (\<forall>s. map_of results (fst (data ! i)) = Some s \<longrightarrow>
              (\<exists>v. map_of s ''G'' = Some v \<and>
                 errors ! i = (fst (data ! i), Some (v - fst (snd (data ! i))))))))"
proof -
  let ?errors = "series_sub results_G (glucose data)"
  have ef: "error_func glob run_ode_solver params data = Inr ?errors"
    using sys run col by (simp add: error_func_def and_then_def)
  have cidx: "map fst results_G = map fst results"
    by (rule column_index [OF col])
  have lend: "length (glucose data) = length data"
    by (simp add: glucose_def)
  have gk: "fst (glucose data ! i) = fst (data ! i)" if "i < length data" for i
    using that by (simp add: glucose_def case_prod_unfold)
  have obs: "snd (glucose data ! i) = fst (snd (data ! i))" if "i < length data" for i
    using that by (simp add: glucose_def case_prod_unfold)
  have exact: "map fst ?errors = index_of data \<and> length ?errors = length data \<and>
      (\<forall>i<length data.
         fst (results ! i) = fst (data ! i) \<and>
         map_of (snd (results ! i)) ''G'' = Some (snd (results_G ! i)) \<and>
         ?errors ! i = (fst (data ! i), Some (snd (results_G ! i) - fst (snd (data ! i)))))"
    if times: "map fst results = index_of data"
  proof -
    have idx: "map fst results_G = index_of data"
      using cidx times by simp
    then have same: "map fst results_G = map fst (glucose data)"
      by (simp add: index_glucose)
    have len: "length results_G = length data"
      using idx by (metis length_map index_of_def)
    have lenr: "length results = length data"
      using times by (metis length_map index_of_def)
    have keys: "fst (results ! i) = fst (data ! i)" if "i < length data" for i
    proof -
      have "map fst results ! i = index_of data ! i"
        by (simp add: times)
      then show ?thesis
        using that lenr by (simp add: index_of_def)
    qed
    have keysG: "fst (results_G ! i) = fst (data ! i)" if "i < length data" for i
    proof -
      have "map fst results_G ! i = index_of data ! i"
        by (simp add: idx)
      then show ?thesis
        using that len by (simp add: index_of_def)
    qed
    have field: "map_of (snd (results ! i)) ''G'' = Some (snd (results_G ! i))"
      if "i < length data" for i
      using column_nth [OF col, of i] that lenr by simp
    have entry: "?errors ! i = (fst (data ! i), Some (snd (results_G ! i) - fst (snd (data ! i))))"
      if "i < length data" for i
      using series_sub_same_index(3) [OF same, of i] that len keysG [OF that] obs [OF that]
      by simp
    show ?thesis
      using series_sub_same_index(1) [OF same] series_sub_same_index(2) [OF same]
        idx len keys field entry
      by simp
  qed
  have partial: "map fst ?errors = index_of data \<and> length ?errors = length data \<and>
      (\<forall>i<length data.
         (fst (data ! i) \<notin> set (map fst results) \<longrightarrow>
            ?errors ! i = (fst (data ! i), None)) \<and>
         (\<forall>s. map_of results (fst (data ! i)) = Some s \<longrightarrow>
            (\<exists>v. map_of s ''G'' = Some v \<and>
               ?errors ! i = (fst (data ! i), Some (v - fst (snd (data ! i)))))))"
    if sub: "sorted_wrt (<) (index_of data) \<and> set (map fst results) \<subseteq> set (index_of data)"
  proof -
    have s: "sorted_wrt (<) (map fst (glucose data))"
      using sub by (simp add: index_glucose)
    have i: "set (map fst results_G) \<subseteq> set (map fst (glucose data))"
      using sub by (simp add: cidx index_glucose)
    have none: "?errors ! i = (fst (data ! i), None)"
      if "i < length data" "fst (data ! i) \<notin> set (map fst results)" for i
    proof -
      have "set (map fst results_G) = set (map fst results)"
        by (simp only: cidx)
      then have "fst (data ! i) \<notin> fst ` set results_G"
        using that(2) by simp
      then have "map_of results_G (fst (glucose data ! i)) = None"
        using that(1) by (simp add: map_of_eq_None_iff gk)
      then show ?thesis
        using series_sub_index(3) [OF s i, of i] that(1) lend gk [OF that(1)] by simp
    qed
    have some: "\<exists>v. map_of r ''G'' = Some v \<and>
        ?errors ! i = (fst (data ! i), Some (v - fst (snd (data ! i))))"
      if less: "i < length data" and row: "map_of results (fst (data ! i)) = Some r" for i r
    proof -
      obtain v where v: "map_of r ''G'' = Some v" "map_of results_G (fst (data ! i)) = Some v"
        using column_map_of [OF col row] by auto
      have "?errors ! i = (fst (glucose data ! i), Some (v - snd (glucose data ! i)))"
        by (rule series_sub_present [OF s i]) (simp_all add: less lend gk v(2))
      then show ?thesis
        using v(1) gk [OF less] obs [OF less] by simp
    qed
    show ?thesis
      using series_sub_index(1) [OF s i] series_sub_index(2) [OF s i] none some
      by (simp add: index_glucose lend)
  qed
  show ?thesis
    apply (rule exI [of _ ?errors])
    apply (intro conjI impI)
    apply (rule ef)
    using exact apply simp
    using exact apply simp
    using exact apply simp
    using partial apply simp
    using partial apply simp
    using partial apply simp
    done
qed

theorem error_func_residuals_witness:
  "(\<exists>errors. error_func no_names stand_in_solver [290, 3, 2, 1] [(0, 92, 11), (2, 350, 26)] =
       Inr errors \<and>
     map fst errors = [0, 2] \<and> length errors = 2 \<and>
     errors ! 0 = (0, Some (290 - 92)) \<and> errors ! 1 = (2, Some (288 - 350))) \<and>
   (\<exists>errors. error_func no_names stopping_solver [290, 3, 2, 1] [(0, 92, 11), (2, 350, 26)] =
       Inr errors \<and>
     map fst errors = [0, 2] \<and> length errors = 2 \<and>
     errors ! 0 = (0, Some (290 - 92)) \<and> errors ! 1 = (2, None))"
proof
  let ?data = "[(0, 92, 11), (2, 350, 26)] :: DataFrame"
  let ?sys = "\<lparr>init = Some [(''G'', 290), (''X'', 0)], G0 = Some 290, k1 = Some 3,
     k2 = Some 2, k3 = Some 1, I = None, Gb = Some 92, Ib = Some 11, t_0 = Some 0,
     t_end = Some 2, dt = None\<rparr>"
  have sys: "make_system [290, 3, 2, 1] ?data = Inr ?sys"
    by (simp add: make_system_def series_at_def and_then_def get_first_label_def
        get_last_label_def glucose_def insulin_def)
  let ?res = "[(0, [(''G'', 290), (''X'', 0)]), (2, [(''G'', 288), (''X'', 1 / 50)])] :: TimeFrame"
  let ?g = "[(0, 290), (2, 288)] :: Series"
  have run: "stand_in_solver ?sys (slope_func no_names) (index_of ?data) = Inr (?res, ''ok'')"
    by (simp add: stand_in_solver_def index_of_def)
  have col: "column ?res ''G'' = Inr ?g"
    by (simp add: and_then_def)
  have times: "map fst ?res = index_of ?data"
    by (simp add: index_of_def)
  obtain errors where e:
    "error_func no_names stand_in_solver [290, 3, 2, 1] ?data = Inr errors"
    "map fst ?res = index_of ?data \<longrightarrow>
       map fst errors = index_of ?data \<and> length errors = length ?data \<and>
       (\<forall>i<length ?data. fst (?res ! i) = fst (?data ! i) \<and>
          map_of (snd (?res ! i)) ''G'' = Some (snd (?g ! i)) \<and>
          errors ! i = (fst (?data ! i), Some (snd (?g ! i) - fst (snd (?data ! i)))))"
    using error_func_residuals [where run_ode_solver = stand_in_solver and glob = no_names
        and details = "''ok''", OF sys run col]
    by auto
  have all: "\<forall>i<length ?data. errors ! i =
      (fst (?data ! i), Some (snd (?g ! i) - fst (snd (?data ! i))))"
    and idx: "map fst errors = index_of ?data" and len: "length errors = length ?data"
    using e(2) times by simp_all
  have "errors ! 0 = (0, Some (290 - 92))"
    using all [rule_format, of 0] by simp
  moreover have "errors ! 1 = (2, Some (288 - 350))"
    using all [rule_format, of 1] by simp
  ultimately show "\<exists>errors. error_func no_names stand_in_solver [290, 3, 2, 1] ?data =
       Inr errors \<and>
     map fst errors = [0, 2] \<and> length errors = 2 \<and>
     errors ! 0 = (0, Some (290 - 92)) \<and> errors ! 1 = (2, Some (288 - 350))"
    using e(1) idx len by (auto simp: index_of_def)
next
  let ?data = "[(0, 92, 11), (2, 350, 26)] :: DataFrame"
  let ?sys = "\<lparr>init = Some [(''G'', 290), (''X'', 0)], G0 = Some 290, k1 = Some 3,
     k2 = Some 2, k3 = Some 1, I = None, Gb = Some 92, Ib = Some 11, t_0 = Some 0,
     t_end = Some 2, dt = None\<rparr>"
  have sys: "make_system [290, 3, 2, 1] ?data = Inr ?sys"
    by (simp add: make_system_def series_at_def and_then_def get_first_label_def
        get_last_label_def glucose_def insulin_def)
  let ?res = "[(0, [(''G'', 290), (''X'', 0)])] :: TimeFrame"
  let ?g = "[(0, 290)] :: Series"
  have run: "stopping_solver ?sys (slope_func no_names) (index_of ?data) = Inr (?res, ''failed'')"
    by (simp add: stopping_solver_def index_of_def)
  have col: "column ?res ''G'' = Inr ?g"
    by (simp add: and_then_def)
  have sub: "sorted_wrt (<) (index_of ?data) \<and> set (map fst ?res) \<subseteq> set (index_of ?data)"
    by (simp add: index_of_def)
  obtain errors where e:
    "error_func no_names stopping_solver [290, 3, 2, 1] ?data = Inr errors"
    "sorted_wrt (<) (index_of ?data) \<and> set (map fst ?res) \<subseteq> set (index_of ?data) \<longrightarrow>
       map fst errors = index_of ?data \<and> length errors = length ?data \<and>
       (\<forall>i<length ?data.
          (fst (?data ! i) \<notin> set (map fst ?res) \<longrightarrow>
             errors ! i = (fst (?data ! i), None)) \<and>
          (\<forall>s. map_of ?res (fst (?data ! i)) = Some s \<longrightarrow>
             (\<exists>v. map_of s ''G'' = Some v \<and>
                errors ! i = (fst (?data ! i), Some (v - fst (snd (?data ! i)))))))"
    using error_func_residuals [where run_ode_solver = stopping_solver and glob = no_names
        and details = "''failed''", OF sys run col]
    by auto
  have all: "\<forall>i<length ?data.
      (fst (?data ! i) \<notin> set (map fst ?res) \<longrightarrow>
         errors ! i = (fst (?data ! i), None)) \<and>
      (\<forall>s. map_of ?res (fst (?data ! i)) = Some s \<longrightarrow>
         (\<exists>v. map_of s ''G'' = Some v \<and>
            errors ! i = (fst (?data ! i), Some (v - fst (snd (?data ! i))))))"
    and idx: "map fst errors = index_of ?data" and len: "length errors = length ?data"
    using e(2) sub by simp_all
  have "errors ! 1 = (2, None)"
    using all [rule_format, of 1] by simp
  moreover have "errors ! 0 = (0, Some (290 - 92))"
    using all [rule_format, of 0] by simp
  ultimately show "\<exists>errors. error_func no_names stopping_solver [290, 3, 2, 1] ?data =
       Inr errors \<and>
     map fst errors = [0, 2] \<and> length errors = 2 \<and>
     errors ! 0 = (0, Some (290 - 92)) \<and> errors ! 1 = (2, None)"
    using e(1) idx len by (auto simp: index_of_def)
qed

text \<open>
  C4. (As amended.) Neither \<open>make_system\<close> nor \<open>run_simulation\<close> validates the
  configuration. \<open>make_system\<close> raises \<^verbatim>\<open>ValueError\<close> for a parameter sequence not of
  length four, \<^verbatim>\<open>IndexError\<close> for a data table without rows and \<^verbatim>\<open>KeyError\<close> for one
  with rows but none at time label 0; with a row at label 0 it returns a system with the
  first and the last label as \<open>t_0\<close> and \<open>t_end\<close>, whatever their order, and without a
  step size. \<open>run_simulation\<close> raises \<^verbatim>\<open>NameError\<close>, before the rule is called, for the
  first of init, t_0, t_end, dt that neither the system nor the enclosing namespace
  binds; a name that only the enclosing namespace binds is taken from there; then
  \<open>t_0\<close>, \<open>t_end\<close>, \<open>dt\<close> go unchecked to \<open>linrange\<close> and the loop runs over what that
  returns.
\<close>

theorem configuration_is_not_validated:
  "(length params \<noteq> 4 \<longrightarrow> make_system params data = Inl ValueError) \<and>
   make_system [g0, a1, a2, a3] [] = Inl IndexError \<and>
   (data \<noteq> [] \<and> 0 \<notin> fst ` set data \<longrightarrow>
      make_system [g0, a1, a2, a3] data = Inl KeyError) \<and>
   (0 \<in> fst ` set data \<longrightarrow>
      (\<exists>gb ib. make_system [g0, a1, a2, a3] data =
         Inr \<lparr>init = Some [(''G'', g0), (''X'', 0)], G0 = Some g0, k1 = Some a1,
              k2 = Some a2, k3 = Some a3, I = None, Gb = Some gb, Ib = Some ib,
              t_0 = Some (fst (hd data)), t_end = Some (fst (last data)), dt = None\<rparr>)) \<and>
   run_simulation lr glob system f w =
     (case init (unpack system glob) of
        None \<Rightarrow> (Inl (NameError ''init''), w)
      | Some s0 \<Rightarrow>
     (case t_0 (unpack system glob) of
        None \<Rightarrow> (Inl (NameError ''t_0''), w)
      | Some a \<Rightarrow>
     (case t_end (unpack system glob) of
        None \<Rightarrow> (Inl (NameError ''t_end''), w)
      | Some b \<Rightarrow>
     (case dt (unpack system glob) of
        None \<Rightarrow> (Inl (NameError ''dt''), w)
      | Some d \<Rightarrow>
     (case lr a b d of
        Inl e \<Rightarrow> (Inl e, w)
      | Inr ts \<Rightarrow> run_loop f system d [(a, s0)] ts w)))))"
proof (intro conjI impI)
  assume "length params \<noteq> 4"
  then show "make_system params data = Inl ValueError"
    by (rule make_system_ValueError)
next
  show "make_system [g0, a1, a2, a3] [] = Inl IndexError"
    by (rule make_system_IndexError)
next
  assume "data \<noteq> [] \<and> 0 \<notin> fst ` set data"
  then show "make_system [g0, a1, a2, a3] data = Inl KeyError"
    by (simp add: make_system_KeyError)
next
  assume "0 \<in> fst ` set data"
  then obtain gb ib where "map_of (glucose data) 0 = Some gb" "map_of (insulin data) 0 = Some ib"
    using map_of_glucose_insulin by blast
  then show "\<exists>gb ib. make_system [g0, a1, a2, a3] data =
         Inr \<lparr>init = Some [(''G'', g0), (''X'', 0)], G0 = Some g0, k1 = Some a1,
              k2 = Some a2, k3 = Some a3, I = None, Gb = Some gb, Ib = Some ib,
              t_0 = Some (fst (hd data)), t_end = Some (fst (last data)), dt = None\<rparr>"
    using make_system_value by blast
next
  show "run_simulation lr glob system f w =
     (case init (unpack system glob) of
        None \<Rightarrow> (Inl (NameError ''init''), w)
      | Some s0 \<Rightarrow>
     (case t_0 (unpack system glob) of
        None \<Rightarrow> (Inl (NameError ''t_0''), w)
      | Some a \<Rightarrow>
     (case t_end (unpack system glob) of
        None \<Rightarrow> (Inl (NameError ''t_end''), w)
      | Some b \<Rightarrow>
     (case dt (unpack system glob) of
        None \<Rightarrow> (Inl (NameError ''dt''), w)
      | Some d \<Rightarrow>
     (case lr a b d of
        Inl e \<Rightarrow> (Inl e, w)
      | Inr ts \<Rightarrow> run_loop f system d [(a, s0)] ts w)))))"
    by (simp add: run_simulation_def name_def split: option.splits sum.splits)
qed

theorem configuration_is_not_validated_witness:
  "make_system [290, 3, 2] [(0, 92, 11), (2, 350, 26)] = Inl ValueError \<and>
   make_system [290, 3, 2, 1] [] = Inl IndexError \<and>
   make_system [290, 3, 2, 1] [(2, 350, 26), (4, 287, 130)] = Inl KeyError \<and>
   (\<exists>gb ib. make_system [290, 3, 2, 1] [(4, 287, 130), (0, 92, 11)] =
      Inr \<lparr>init = Some [(''G'', 290), (''X'', 0)], G0 = Some 290, k1 = Some 3,
           k2 = Some 2, k3 = Some 1, I = None, Gb = Some gb, Ib = Some ib,
           t_0 = Some 4, t_end = Some 0, dt = None\<rparr>) \<and>
   run_simulation linrange no_names (example_system\<lparr>dt := None\<rparr>) failing_rule 0 =
     (Inl (NameError ''dt''), 0) \<and>
   run_simulation linrange (no_names\<lparr>dt := Some 2\<rparr>) (example_system\<lparr>dt := None\<rparr>)
       failing_rule 0 =
     (Inl (Raised ''boom''), 2)"
proof (intro conjI)
  show "make_system [290, 3, 2] [(0, 92, 11), (2, 350, 26)] = Inl ValueError"
    using configuration_is_not_validated [of "[290, 3, 2]" "[(0, 92, 11), (2, 350, 26)]"
        0 0 0 0 linrange no_names example_system failing_rule 0]
    by simp
  show "make_system [290, 3, 2, 1] [] = Inl IndexError"
    using configuration_is_not_validated [of "[]" "[]"
        290 3 2 1 linrange no_names example_system failing_rule 0]
    by simp
  show "make_system [290, 3, 2, 1] [(2, 350, 26), (4, 287, 130)] = Inl KeyError"
    using configuration_is_not_validated [of "[]" "[(2, 350, 26), (4, 287, 130)]"
        290 3 2 1 linrange no_names example_system failing_rule 0]
    by simp
  show "\<exists>gb ib. make_system [290, 3, 2, 1] [(4, 287, 130), (0, 92, 11)] =
      Inr \<lparr>init = Some [(''G'', 290), (''X'', 0)], G0 = Some 290, k1 = Some 3,
           k2 = Some 2, k3 = Some 1, I = None, Gb = Some gb, Ib = Some ib,
           t_0 = Some 4, t_end = Some 0, dt = None\<rparr>"
    using configuration_is_not_validated [of "[]" "[(4, 287, 130), (0, 92, 11)]"
        290 3 2 1 linrange no_names example_system failing_rule 0]
    by simp
  show "run_simulation linrange no_names (example_system\<lparr>dt := None\<rparr>) failing_rule 0 =
     (Inl (NameError ''dt''), 0)"
    using configuration_is_not_validated [of "[]" "[]" 0 0 0 0 linrange no_names
        "example_system\<lparr>dt := None\<rparr>" failing_rule 0]
    by (simp add: example_system_def no_names_def unpack_def or_else_def)
  show "run_simulation linrange (no_names\<lparr>dt := Some 2\<rparr>) (example_system\<lparr>dt := None\<rparr>)
       failing_rule 0 = (Inl (Raised ''boom''), 2)"
    using configuration_is_not_validated [of "[]" "[]" 0 0 0 0 linrange
        "no_names\<lparr>dt := Some 2\<rparr>" "example_system\<lparr>dt := None\<rparr>" failing_rule 0]
    by (simp add: example_system_def no_names_def unpack_def or_else_def linrange_def
        grid_def upt_conv_Cons failing_rule_def row_get_def)
qed

text \<open>
  C4. As stated, the claim fails: a system built without the step size \<open>dt\<close>, which both
  the harness and \<open>update_func\<close> read, is not rejected when the enclosing namespace
  binds a \<open>dt\<close>. That value is used in silence: the run takes its two steps and returns
  the frame.
\<close>

theorem run_simulation_takes_missing_dt_from_globals:
  "run_simulation linrange (no_names\<lparr>dt := Some 2\<rparr>) (example_system\<lparr>dt := None\<rparr>)
       (pure_rule (update_func (no_names\<lparr>dt := Some 2\<rparr>))) () =
     (Inr [(0, [(''G'', 290), (''X'', 0)]),
           (2, [(''G'', 6953 / 25), (''X'', 0)]),
           (4, [(''G'', 333691 / 1250), (''X'', 1 / 25000)])], ())"
  by (simp add: run_simulation_def name_def example_system_def no_names_def unpack_def
      or_else_def linrange_def grid_def upt_conv_Cons row_get_def pure_rule_def
      update_func_def and_then_def)

text \<open>
  C5. (As amended.) For parameters (G0, k1, k2, k3) and a data table with a row at time
  label 0, \<open>make_system\<close> returns the system with the four parameters, the initial state
  \<^verbatim>\<open>State(G=G0, X=0)\<close>, Gb and Ib the glucose and insulin values at label 0 (those of the
  first row when the index starts at 0), \<open>t_0\<close> and \<open>t_end\<close> the first and the last
  label, and neither a step size \<open>dt\<close> nor an insulin signal \<open>I\<close>.
\<close>

theorem make_system_config:
  "(map_of (glucose data) 0 = Some gb \<and> map_of (insulin data) 0 = Some ib \<longrightarrow>
      make_system [g0, a1, a2, a3] data =
        Inr \<lparr>init = Some [(''G'', g0), (''X'', 0)], G0 = Some g0, k1 = Some a1, k2 = Some a2,
             k3 = Some a3, I = None, Gb = Some gb, Ib = Some ib, t_0 = Some (fst (hd data)),
             t_end = Some (fst (last data)), dt = None\<rparr>) \<and>
   make_system [g0, a1, a2, a3] ((0, g, i) # rest) =
     Inr \<lparr>init = Some [(''G'', g0), (''X'', 0)], G0 = Some g0, k1 = Some a1, k2 = Some a2,
          k3 = Some a3, I = None, Gb = Some g, Ib = Some i, t_0 = Some 0,
          t_end = Some (fst (last ((0, g, i) # rest))), dt = None\<rparr>"
proof
  show "map_of (glucose data) 0 = Some gb \<and> map_of (insulin data) 0 = Some ib \<longrightarrow>
      make_system [g0, a1, a2, a3] data =
        Inr \<lparr>init = Some [(''G'', g0), (''X'', 0)], G0 = Some g0, k1 = Some a1, k2 = Some a2,
             k3 = Some a3, I = None, Gb = Some gb, Ib = Some ib, t_0 = Some (fst (hd data)),
             t_end = Some (fst (last data)), dt = None\<rparr>"
    using make_system_value by blast
next
  have "map_of (glucose ((0, g, i) # rest)) 0 = Some g"
    "map_of (insulin ((0, g, i) # rest)) 0 = Some i"
    by (simp_all add: glucose_def insulin_def)
  then show "make_system [g0, a1, a2, a3] ((0, g, i) # rest) =
     Inr \<lparr>init = Some [(''G'', g0), (''X'', 0)], G0 = Some g0, k1 = Some a1, k2 = Some a2,
          k3 = Some a3, I = None, Gb = Some g, Ib = Some i, t_0 = Some 0,
          t_end = Some (fst (last ((0, g, i) # rest))), dt = None\<rparr>"
    using make_system_value [of "(0, g, i) # rest" g i g0 a1 a2 a3]
    by simp
qed

theorem make_system_config_witness:
  "make_system [290, 3 / 100, 2 / 100, 1 / 100000] [(0, 92, 11), (2, 350, 26), (4, 287, 130)] =
     Inr \<lparr>init = Some [(''G'', 290), (''X'', 0)], G0 = Some 290, k1 = Some (3 / 100),
          k2 = Some (2 / 100), k3 = Some (1 / 100000), I = None, Gb = Some 92, Ib = Some 11,
          t_0 = Some 0, t_end = Some 4, dt = None\<rparr>"
  using make_system_config [of "[(0, 92, 11), (2, 350, 26), (4, 287, 130)]" 92 11 290
      "3 / 100" "2 / 100" "1 / 100000"]
  by (simp add: glucose_def insulin_def)

text \<open>
  C5. As stated, the claim fails: the system \<open>make_system\<close> returns has no step
  size, and the baselines are those of the row labelled 0, which need not be the first.
\<close>

theorem make_system_has_no_step_size:
  "make_system [290, 3 / 100, 2 / 100, 1 / 100000] [(0, 92, 11), (2, 350, 26)] =
     Inr \<lparr>init = Some [(''G'', 290), (''X'', 0)], G0 = Some 290, k1 = Some (3 / 100),
          k2 = Some (2 / 100), k3 = Some (1 / 100000), I = None, Gb = Some 92, Ib = Some 11,
          t_0 = Some 0, t_end = Some 2, dt = None\<rparr> \<and>
   make_system [290, 3 / 100, 2 / 100, 1 / 100000] [(- 2, 80, 10), (0, 92, 11)] =
     Inr \<lparr>init = Some [(''G'', 290), (''X'', 0)], G0 = Some 290, k1 = Some (3 / 100),
          k2 = Some (2 / 100), k3 = Some (1 / 100000), I = None, Gb = Some 92, Ib = Some 11,
          t_0 = Some (- 2), t_end = Some 0, dt = None\<rparr>"
  by (simp add: make_system_def series_at_def and_then_def get_first_label_def
      get_last_label_def glucose_def insulin_def)

text \<open>
  C6. (As amended.) With k1, k2, k3 all zero the slope rule returns
  \<open>(- X * G, 0)\<close>: it is zero exactly where \<open>X * G = 0\<close>. When moreover the initial state
  has \<open>X = 0\<close>, as every \<^verbatim>\<open>State(G=G0, X=0)\<close> that \<open>make_system\<close> builds, the constant
  function at the initial state is an exact trajectory, and every exact trajectory equals
  the initial state at every time of \<open>[t_0, t_end]\<close>.
\<close>

theorem zero_rates_no_drift_from_X_zero:
  assumes rates: "k1 (unpack system glob) = Some 0" "k2 (unpack system glob) = Some 0"
      "k3 (unpack system glob) = Some 0"
    and names: "I (unpack system glob) = Some f" "Gb (unpack system glob) = Some gb"
      "Ib (unpack system glob) = Some ib"
  shows "slope_func glob [(m1, g), (m2, x)] t system = Inr (- (x * g), 0) \<and>
     (init (unpack system glob) = Some [(n1, g0), (n2, 0)] \<and>
      t_0 (unpack system glob) = Some a \<and> t_end (unpack system glob) = Some b \<longrightarrow>
      exact_trajectory glob (slope_func glob) system (\<lambda>t. (g0, 0)) \<and>
      (\<forall>y. exact_trajectory glob (slope_func glob) system y \<longrightarrow>
         (\<forall>t\<in>{a..b}. y t = (g0, 0))))"
proof (intro conjI allI impI ballI)
  show "slope_func glob [(m1, g), (m2, x)] t system = Inr (- (x * g), 0)"
    by (rule slope_func_zero_rates [OF rates names])
next
  assume "init (unpack system glob) = Some [(n1, g0), (n2, 0)] \<and>
      t_0 (unpack system glob) = Some a \<and> t_end (unpack system glob) = Some b"
  then show "exact_trajectory glob (slope_func glob) system (\<lambda>t. (g0, 0))"
    by (simp add: exact_trajectory_def slope_func_zero_rates [OF rates names])
next
  fix y t
  assume start: "init (unpack system glob) = Some [(n1, g0), (n2, 0)] \<and>
      t_0 (unpack system glob) = Some a \<and> t_end (unpack system glob) = Some b"
    and y: "exact_trajectory glob (slope_func glob) system y" and t: "t \<in> {a..b}"
  have ya: "fst (y a) = g0" "snd (y a) = 0"
    using y start by (simp_all add: exact_trajectory_def)
  have der: "((\<lambda>u. fst (y u)) has_real_derivative - (snd (y u) * fst (y u))) (at u within {a..b}) \<and>
      ((\<lambda>u. snd (y u)) has_real_derivative 0) (at u within {a..b})" if "u \<in> {a..b}" for u
    using y start that
    by (auto simp: exact_trajectory_def slope_func_zero_rates [OF rates names])
  have X: "snd (y u) = 0" if "u \<in> {a..b}" for u
    using constant_on_interval [of a b "\<lambda>u. snd (y u)" u] der that ya(2) by simp
  have "((\<lambda>u. fst (y u)) has_real_derivative 0) (at u within {a..b})" if "u \<in> {a..b}" for u
    using der [OF that] X [OF that] by simp
  then have G: "fst (y u) = g0" if "u \<in> {a..b}" for u
    using constant_on_interval [of a b "\<lambda>u. fst (y u)" u] that ya(1) by simp
  show "y t = (g0, 0)"
    using G [OF t] X [OF t] by (simp add: prod_eq_iff)
qed

theorem zero_rates_no_drift_from_X_zero_witness:
  "make_system [290, 0, 0, 0] [(0, 92, 11), (4, 287, 130)] =
     Inr \<lparr>init = Some [(''G'', 290), (''X'', 0)], G0 = Some 290, k1 = Some 0, k2 = Some 0,
          k3 = Some 0, I = None, Gb = Some 92, Ib = Some 11, t_0 = Some 0, t_end = Some 4,
          dt = None\<rparr> \<and>
   slope_func notebook_globals [(''G'', 290), (''X'', 0)] 1
     \<lparr>init = Some [(''G'', 290), (''X'', 0)], G0 = Some 290, k1 = Some 0, k2 = Some 0,
      k3 = Some 0, I = None, Gb = Some 92, Ib = Some 11, t_0 = Some 0, t_end = Some 4,
      dt = None\<rparr> = Inr (0, 0) \<and>
   exact_trajectory notebook_globals (slope_func notebook_globals)
     \<lparr>init = Some [(''G'', 290), (''X'', 0)], G0 = Some 290, k1 = Some 0, k2 = Some 0,
      k3 = Some 0, I = None, Gb = Some 92, Ib = Some 11, t_0 = Some 0, t_end = Some 4,
      dt = None\<rparr> (\<lambda>t. (290, 0))"
proof -
  let ?sys = "\<lparr>init = Some [(''G'', 290), (''X'', 0)], G0 = Some 290, k1 = Some 0,
      k2 = Some 0, k3 = Some 0, I = None, Gb = Some 92, Ib = Some 11, t_0 = Some 0,
      t_end = Some 4, dt = None\<rparr>"
  have sys: "make_system [290, 0, 0, 0] [(0, 92, 11), (4, 287, 130)] = Inr ?sys"
    by (simp add: make_system_def series_at_def and_then_def get_first_label_def
        get_last_label_def glucose_def insulin_def)
  have start: "init (unpack ?sys notebook_globals) = Some [(''G'', 290), (''X'', 0)] \<and>
      t_0 (unpack ?sys notebook_globals) = Some 0 \<and> t_end (unpack ?sys notebook_globals) = Some 4"
    by (simp add: unpack_def or_else_def)
  have "slope_func notebook_globals [(''G'', 290), (''X'', 0)] 1 ?sys = Inr (- (0 * 290), 0) \<and>
     (init (unpack ?sys notebook_globals) = Some [(''G'', 290), (''X'', 0)] \<and>
      t_0 (unpack ?sys notebook_globals) = Some 0 \<and>
      t_end (unpack ?sys notebook_globals) = Some 4 \<longrightarrow>
      exact_trajectory notebook_globals (slope_func notebook_globals) ?sys (\<lambda>t. (290, 0)) \<and>
      (\<forall>y. exact_trajectory notebook_globals (slope_func notebook_globals) ?sys y \<longrightarrow>
         (\<forall>t\<in>{0..4}. y t = (290, 0))))"
    by (rule zero_rates_no_drift_from_X_zero [where f = "\<lambda>t. 11 + t" and gb = 92 and ib = 11])
      (simp_all add: notebook_globals_def no_names_def unpack_def or_else_def)
  then show ?thesis
    using sys start by simp
qed

text \<open>
  C6. As stated, the claim fails: with zero rate constants and the initial state
  (G, X) = (1, 1) the slope rule returns \<open>(- 1, 0)\<close>, and the exact trajectory is
  \<open>G t = exp (- t)\<close>, \<open>X t = 1\<close>, which has left the initial state at \<open>t = 4\<close>.
\<close>

theorem zero_rates_drift_from_X_nonzero:
  "slope_func no_names [(''G'', 1), (''X'', 1)] 0
     (example_system\<lparr>init := Some [(''G'', 1), (''X'', 1)], k1 := Some 0, k2 := Some 0,
        k3 := Some 0\<rparr>) = Inr (- 1, 0) \<and>
   exact_trajectory no_names (slope_func no_names)
     (example_system\<lparr>init := Some [(''G'', 1), (''X'', 1)], k1 := Some 0, k2 := Some 0,
        k3 := Some 0\<rparr>) (\<lambda>t. (exp (- t), 1)) \<and>
   (exp (- 4), 1) \<noteq> (1 :: real, 1 :: real)"
proof (intro conjI)
  let ?sys = "example_system\<lparr>init := Some [(''G'', 1), (''X'', 1)], k1 := Some 0,
      k2 := Some 0, k3 := Some 0\<rparr>"
  have slope: "slope_func no_names [(n1, g), (n2, x)] t ?sys = Inr (- (x * g), 0)" for n1 g n2 x t
    by (rule slope_func_zero_rates [where f = "\<lambda>t. 11 + t" and gb = 92 and ib = 11])
      (simp_all add: example_system_def no_names_def unpack_def or_else_def)
  show "slope_func no_names [(''G'', 1), (''X'', 1)] 0 ?sys = Inr (- 1, 0)"
    by (simp add: slope)
  have dG: "((\<lambda>u. exp (- u)) has_real_derivative - exp (- t)) (at t within {0..4})" for t :: real
    by (auto intro!: derivative_eq_intros)
  have ns: "init (unpack ?sys no_names) = Some [(''G'', 1), (''X'', 1)]"
    "t_0 (unpack ?sys no_names) = Some 0" "t_end (unpack ?sys no_names) = Some 4"
    by (simp_all add: example_system_def unpack_def or_else_def)
  show "exact_trajectory no_names (slope_func no_names) ?sys (\<lambda>t. (exp (- t), 1))"
    by (simp add: exact_trajectory_def ns slope dG)
  show "(exp (- 4), 1) \<noteq> (1 :: real, 1 :: real)"
    by simp
qed

text \<open>
  C7. When the update rule raises \<open>e\<close> at a loop time \<open>t\<close>, the steps before having
  succeeded, \<open>run_simulation\<close> ends with that same exception \<open>e\<close>: no frame is returned,
  and the state of the rule's effects is the one the failing call left, so the rule is not
  called again, neither for a retry nor for the times after \<open>t\<close>.
\<close>

theorem run_simulation_propagates:
  assumes "init (unpack system glob) = Some s0" "t_0 (unpack system glob) = Some a"
      "t_end (unpack system glob) = Some b" "dt (unpack system glob) = Some d"
    and "lr a b d = Inr (pre @ t # post)"
    and "run_loop update system d [(a, s0)] pre w = (Inr frame, w1)"
    and "row_get frame t = Inr s"
    and "update s t system w1 = (Inl e, w2)"
  shows "run_simulation lr glob system update w = (Inl e, w2)"
  using assms by (simp add: run_simulation_def name_def run_loop_append)

theorem run_simulation_propagates_witness:
  "run_simulation linrange no_names (example_system\<lparr>t_end := Some 6\<rparr>) failing_rule 0 =
     (Inl (Raised ''boom''), 2)"
proof -
  let ?sys = "example_system\<lparr>t_end := Some 6\<rparr>"
  let ?s0 = "[(''G'', 290), (''X'', 0)] :: State"
  have lr: "linrange 0 6 2 = Inr ([0] @ 2 # [4])"
    by (simp add: linrange_def grid_def upt_conv_Cons)
  have pre: "run_loop failing_rule ?sys 2 [(0, ?s0)] [0] 0 = (Inr [(0, ?s0), (2, ?s0)], 1)"
    by (simp add: failing_rule_def row_get_def)
  have get: "row_get [(0, ?s0), (2, ?s0)] 2 = Inr ?s0"
    by (simp add: row_get_def)
  have fail: "failing_rule ?s0 2 ?sys 1 = (Inl (Raised ''boom''), 2)"
    by (simp add: failing_rule_def)
  show ?thesis
    by (rule run_simulation_propagates [where a = 0 and b = 6
          and d = 2 and ?s0.0 = ?s0 and pre = "[0]" and t = 2 and post = "[4]"
          and ?w1.0 = 1 and s = ?s0 and frame = "[(0, ?s0), (2, ?s0)]" and system = ?sys
          and glob = no_names and lr = linrange and update = failing_rule and w = 0
          and e = "Raised ''boom''" and ?w2.0 = 2,
          OF _ _ _ _ lr pre get fail])
      (simp_all add: example_system_def unpack_def or_else_def)
qed

text \<open>
  C9. With the initial state \<^verbatim>\<open>State(G=g0, X=x0)\<close> and \<open>update_func\<close> as the rule, every
  row of the frame \<open>run_simulation\<close> returns has the fields G then X; the first row is the
  initial state of the system; and the frame after the first m steps is the frame of the
  whole run cut after row m: a row, once recorded, is not changed by a later step.
\<close>

theorem run_simulation_states_fixed_fields:
  assumes cfg: "k1 system = Some a1" "k2 system = Some a2" "k3 system = Some a3"
      "I system = Some f" "Gb system = Some gb" "Ib system = Some ib" "dt system = Some d"
    and span: "init system = Some [(''G'', g0), (''X'', x0)]" "t_0 system = Some a"
      "t_end system = Some b"
    and lr: "lr a b d = Inr (map (\<lambda>k. a + real k * d) [0..<n])"
    and d: "d \<noteq> 0"
  shows "\<exists>frame. run_simulation lr glob system (pure_rule (update_func glob)) w = (Inr frame, w) \<and>
     (\<forall>row\<in>set frame. map fst (snd row) = [''G'', ''X'']) \<and>
     init system = Some (snd (frame ! 0)) \<and>
     (\<forall>m\<le>n. run_loop (pure_rule (update_func glob)) system d
               [(a, [(''G'', g0), (''X'', x0)])] (map (\<lambda>k. a + real k * d) [0..<m]) w =
             (Inr (take (Suc m) frame), w))"
proof -
  let ?P = "\<lambda>s::State. map fst s = [''G'', ''X'']"
  have lr': "lr a b d = Inr (grid a d 0 n)"
    using lr by (simp add: grid_def)
  have P0: "?P [(''G'', g0), (''X'', x0)]"
    by simp
  have step: "\<exists>s'. update_func glob s t system = Inr s' \<and> ?P s'" if "?P s" for s t
  proof -
    have "length (map fst s) = 2"
      using that by simp
    then have "length s = 2"
      by simp
    then show ?thesis
      using update_func_total [where ns = "unpack system glob" and glob = glob
          and system = system and s = s and t = t, OF refl unpack_carried(5)
          unpack_carried(6) unpack_carried(7) unpack_carried(8) unpack_carried(9)
          unpack_carried(10) unpack_carried(4), OF cfg]
      by simp
  qed
  obtain frame where fr:
    "run_simulation lr glob system (pure_rule (update_func glob)) w = (Inr frame, w)"
    "map fst frame = grid a d 0 (Suc n)"
    "frame ! 0 = (a, [(''G'', g0), (''X'', x0)])"
    "\<forall>k\<le>n. ?P (snd (frame ! k))"
    "\<forall>m\<le>n. run_loop (pure_rule (update_func glob)) system d
        [(a, [(''G'', g0), (''X'', x0)])] (grid a d 0 m) w = (Inr (take (Suc m) frame), w)"
    using run_simulation_grid [where P = ?P and g = "update_func glob" and system = system
        and glob = glob and lr = lr and w = w, OF refl unpack_carried(1) unpack_carried(2)
        unpack_carried(3) unpack_carried(4) lr' d P0 step, OF span cfg(7)]
    by blast
  have len: "length frame = Suc n"
    using fr(2) by (metis length_map length_grid diff_zero)
  have rows: "\<forall>row\<in>set frame. ?P (snd row)"
  proof
    fix row
    assume "row \<in> set frame"
    then obtain i where i: "i < length frame" "frame ! i = row"
      by (auto simp: in_set_conv_nth)
    then have "i \<le> n"
      using len by simp
    then show "?P (snd row)"
      using fr(4) i(2) by auto
  qed
  have first: "init system = Some (snd (frame ! 0))"
    using span(1) fr(3) by simp
  show ?thesis
    apply (rule exI [of _ frame])
    apply (intro conjI)
    apply (rule fr(1))
    apply (rule rows)
    apply (rule first)
    using fr(5) apply (simp add: grid_def)
    done
qed

theorem run_simulation_states_fixed_fields_witness:
  "\<exists>frame. run_simulation linrange no_names example_system
        (pure_rule (update_func no_names)) () = (Inr frame, ()) \<and>
     (\<forall>row\<in>set frame. map fst (snd row) = [''G'', ''X'']) \<and>
     init example_system = Some (snd (frame ! 0)) \<and>
     (\<forall>m\<le>2. run_loop (pure_rule (update_func no_names)) example_system 2
               [(0, [(''G'', 290), (''X'', 0)])] (map (\<lambda>k. 0 + real k * 2) [0..<m]) () =
             (Inr (take (Suc m) frame), ()))"
proof -
  have lr: "linrange 0 4 2 = Inr (map (\<lambda>k. 0 + real k * 2) [0..<2])"
    by (simp add: linrange_def grid_def)
  show ?thesis
    using run_simulation_states_fixed_fields [where system = example_system
        and glob = no_names and lr = linrange and a = 0 and b = 4 and d = 2 and n = 2
        and w = "()" and ?a1.0 = "3 / 100" and ?a2.0 = "2 / 100" and ?a3.0 = "1 / 100000"
        and f = "\<lambda>t. 11 + t" and gb = 92 and ib = 11 and ?g0.0 = 290 and ?x0.0 = 0,
        OF _ _ _ _ _ _ _ _ _ _ lr]
    by (simp add: example_system_def)
qed

text \<open>
  C10. For every parameter sequence (G0, k1, k2, k3) with k2 nonzero, \<open>indices\<close> returns
  \<^verbatim>\<open>State(S_G=k1, S_I=k3/k2)\<close>; with k2 zero the unguarded division raises a division
  error and no value is returned.
\<close>

theorem indices_value_or_division_error:
  "(c \<noteq> 0 \<longrightarrow> indices [a, b, c, d] = Inr [(''S_G'', b), (''S_I'', d / c)]) \<and>
   indices [a, b, 0, d] = Inl ZeroDivisionError"
  by (simp add: indices_def py_div_def and_then_def)

theorem indices_value_or_division_error_witness:
  "indices [290, 3, 2, 1] = Inr [(''S_G'', 3), (''S_I'', 1 / 2)] \<and>
   indices [290, 3, 0, 1] = Inl ZeroDivisionError"
  using indices_value_or_division_error [of 2 290 3 1]
  by simp

end
